theory Spec2Isabelle
  imports Complex_Main
begin

section \<open>Python text primitives used by \<open>metpy/io/metar.py\<close>\<close>

text \<open>
  Report text is modelled as \<open>string\<close>, one \<open>char\<close> per character (reports are
  ASCII; the eight-bit range is read as Latin-1). The functions below are the Python
  \<open>str\<close> methods and built-ins that \<open>parse_metar\<close> calls, with every exception they
  can raise turned into a value.
\<close>

datatype error = ParseError | ValueError | ZeroDivisionError | OverflowError | KeyError
  | IndexError | TypeError | AttributeError

text \<open>The characters for which \<open>str.isspace\<close> holds: what \<open>strip\<close> and \<open>split\<close>
  skip.\<close>

definition py_isspace :: "char \<Rightarrow> bool" where
  "py_isspace c = (c \<in> set [CHR 0x09, CHR 0x0A, CHR 0x0B, CHR 0x0C, CHR 0x0D,
                             CHR 0x1C, CHR 0x1D, CHR 0x1E, CHR 0x1F, CHR 0x20,
                             CHR 0x85, CHR 0xA0])"

text \<open>\<open>s.strip()\<close>\<close>

definition strip :: "string \<Rightarrow> string" where
  "strip s = rev (dropWhile py_isspace (rev (dropWhile py_isspace s)))"

text \<open>The characters that \<open>int\<close> and \<open>float\<close> skip around a numeral: the six ASCII
  white-space characters, and the two white-space characters beyond ASCII, which the
  interpreter turns into spaces first. The separators \<open>0x1C\<close> to \<open>0x1F\<close> are not
  skipped.\<close>

definition py_numspace :: "char \<Rightarrow> bool" where
  "py_numspace c = (c \<in> set [CHR 0x09, CHR 0x0A, CHR 0x0B, CHR 0x0C, CHR 0x0D, CHR 0x20,
                              CHR 0x85, CHR 0xA0])"

definition num_strip :: "string \<Rightarrow> string" where
  "num_strip s = rev (dropWhile py_numspace (rev (dropWhile py_numspace s)))"

text \<open>\<open>s.split()\<close>: the maximal runs of non-space characters.\<close>

fun split_run :: "string \<Rightarrow> string \<Rightarrow> string list" where
  "split_run cur [] = (if cur = [] then [] else [cur])"
| "split_run cur (c # cs) =
     (if py_isspace c then (if cur = [] then split_run [] cs else cur # split_run [] cs)
      else split_run (cur @ [c]) cs)"

definition py_split :: "string \<Rightarrow> string list" where
  "py_split s = split_run [] s"

text \<open>\<open>s.split(maxsplit=1)\<close>: the first run, and the rest of the text from the next
  non-space character to the end.\<close>

definition py_split1 :: "string \<Rightarrow> string list" where
  "py_split1 s =
     (let s1 = dropWhile py_isspace s in
      if s1 = [] then []
      else let a = takeWhile (\<lambda>c. \<not> py_isspace c) s1;
               r = dropWhile py_isspace (dropWhile (\<lambda>c. \<not> py_isspace c) s1)
           in if r = [] then [a] else [a, r])"

text \<open>\<open>s.split(sep, maxsplit=1)\<close> for a one-character separator.\<close>

definition py_split_on1 :: "char \<Rightarrow> string \<Rightarrow> string list" where
  "py_split_on1 sep s =
     (if sep \<in> set s
      then [takeWhile (\<lambda>c. c \<noteq> sep) s, tl (dropWhile (\<lambda>c. c \<noteq> sep) s)]
      else [s])"

text \<open>\<open>s.startswith(p)\<close>, \<open>s.endswith(p)\<close> and \<open>sub in s\<close>.\<close>

definition startswith :: "string \<Rightarrow> string \<Rightarrow> bool" where
  "startswith s p = (take (length p) s = p)"

definition endswith :: "string \<Rightarrow> string \<Rightarrow> bool" where
  "endswith s p = (length p \<le> length s \<and> drop (length s - length p) s = p)"

fun py_in :: "string \<Rightarrow> string \<Rightarrow> bool" where
  "py_in sub [] = (sub = [])"
| "py_in sub (c # cs) = (startswith (c # cs) sub \<or> py_in sub cs)"

text \<open>Slices with non-negative bounds \<open>s[a:b]\<close>, and the slices from the end that the
  source uses: \<open>s[:-n]\<close> and \<open>s[-n:]\<close>. Slicing never raises.\<close>

definition slice :: "nat \<Rightarrow> nat \<Rightarrow> string \<Rightarrow> string" where
  "slice a b s = take (b - a) (drop a s)"

definition drop_last :: "nat \<Rightarrow> string \<Rightarrow> string" where
  "drop_last n s = take (length s - n) s"

definition take_last :: "nat \<Rightarrow> string \<Rightarrow> string" where
  "take_last n s = drop (length s - n) s"

subsection \<open>\<open>int(s)\<close>\<close>

definition is_digit :: "char \<Rightarrow> bool" where
  "is_digit c = (c \<in> set ''0123456789'')"

definition digit_val :: "char \<Rightarrow> nat" where
  "digit_val c = of_char c - 48"

text \<open>The value of a string of decimal digits.\<close>

definition dec :: "string \<Rightarrow> nat" where
  "dec ds = foldl (\<lambda>n c. 10 * n + digit_val c) 0 ds"

text \<open>Python's \<open>digitpart\<close>: digits, with single underscores allowed between two digits.
  The result is the digits with the underscores removed.\<close>

fun digitpart :: "string \<Rightarrow> string option" where
  "digitpart [] = None"
| "digitpart [c] = (if is_digit c then Some [c] else None)"
| "digitpart (c # d # cs) =
     (if is_digit c
      then (if d = CHR ''_'' then map_option ((#) c) (digitpart cs)
            else map_option ((#) c) (digitpart (d # cs)))
      else None)"

text \<open>The interpreter's limit on the number of digits of a decimal string
  (\<open>sys.int_info.default_max_str_digits\<close>); a longer numeral raises \<open>ValueError\<close>.\<close>

definition int_max_str_digits :: nat where
  "int_max_str_digits = 4300"

definition unsigned_int :: "string \<Rightarrow> error + int" where
  "unsigned_int u =
     (case digitpart u of
        None \<Rightarrow> Inl ValueError
      | Some ds \<Rightarrow> if int_max_str_digits < length ds then Inl ValueError
                   else Inr (int (dec ds)))"

text \<open>\<open>int(s)\<close> in base ten: surrounding white space, one optional sign, a digit part.
  Anything else raises \<open>ValueError\<close>.\<close>

definition py_int :: "string \<Rightarrow> error + int" where
  "py_int s =
     (case num_strip s of
        [] \<Rightarrow> Inl ValueError
      | c # cs \<Rightarrow>
          if c = CHR ''-'' then map_sum id uminus (unsigned_int cs)
          else if c = CHR ''+'' then unsigned_int cs
          else unsigned_int (c # cs))"

subsection \<open>\<open>float(s)\<close>\<close>

text \<open>
  A Python float is one of the three special values or a finite binary64 number. A
  finite result is modelled by the exact rational that the operation denotes: the
  rounding of that rational to the nearest binary64 number is not modelled, its two
  discrete effects are. A result at or beyond \<open>2^1024 - 2^970\<close> in magnitude rounds out of
  the finite range (overflow), and a result of magnitude at most \<open>2^-1075\<close> rounds to zero.
\<close>

datatype pyfloat = Fl rat | Inf_pos | Inf_neg | Nan

definition float_overflow :: rat where
  "float_overflow = 2 ^ 1024 - 2 ^ 970"

definition float_underflow :: rat where
  "float_underflow = 1 / 2 ^ 1075"

text \<open>The float for an exact result \<open>r\<close> where overflow gives an infinity: \<open>float(s)\<close>
  and the arithmetic of floats.\<close>

definition to_float :: "rat \<Rightarrow> pyfloat" where
  "to_float r =
     (if float_overflow \<le> r then Inf_pos
      else if r \<le> - float_overflow then Inf_neg
      else if \<bar>r\<bar> \<le> float_underflow then Fl 0
      else Fl r)"

text \<open>The conversion of an \<open>int\<close> operand to a float raises \<open>OverflowError\<close> out of
  range.\<close>

definition int_to_float :: "int \<Rightarrow> error + pyfloat" where
  "int_to_float n =
     (if float_overflow \<le> \<bar>of_int n\<bar> then Inl OverflowError else Inr (Fl (of_int n)))"

text \<open>\<open>a / b\<close> on two \<open>int\<close>s.\<close>

definition true_div :: "int \<Rightarrow> int \<Rightarrow> error + pyfloat" where
  "true_div a b =
     (if b = 0 then Inl ZeroDivisionError
      else if float_overflow \<le> \<bar>of_int a / of_int b\<bar> then Inl OverflowError
      else Inr (to_float (of_int a / of_int b)))"

fun fl_neg :: "pyfloat \<Rightarrow> pyfloat" where
  "fl_neg (Fl r) = Fl (- r)"
| "fl_neg Inf_pos = Inf_neg"
| "fl_neg Inf_neg = Inf_pos"
| "fl_neg Nan = Nan"

text \<open>Multiplication of a float by a positive finite constant.\<close>

fun fl_scale :: "rat \<Rightarrow> pyfloat \<Rightarrow> pyfloat" where
  "fl_scale k (Fl r) = to_float (k * r)"
| "fl_scale k x = x"

text \<open>Addition of two floats.\<close>

fun fl_add :: "pyfloat \<Rightarrow> pyfloat \<Rightarrow> pyfloat" where
  "fl_add (Fl a) (Fl b) = to_float (a + b)"
| "fl_add Nan y = Nan"
| "fl_add x Nan = Nan"
| "fl_add Inf_pos Inf_neg = Nan"
| "fl_add Inf_neg Inf_pos = Nan"
| "fl_add Inf_pos y = Inf_pos"
| "fl_add Inf_neg y = Inf_neg"
| "fl_add x Inf_pos = Inf_pos"
| "fl_add x Inf_neg = Inf_neg"

text \<open>\<open>x > r\<close>; every comparison with nan is false.\<close>

fun fl_gt :: "pyfloat \<Rightarrow> rat \<Rightarrow> bool" where
  "fl_gt (Fl a) r = (a > r)"
| "fl_gt Inf_pos r = True"
| "fl_gt Inf_neg r = False"
| "fl_gt Nan r = False"

definition lower :: "string \<Rightarrow> string" where
  "lower s = map (\<lambda>c. if c \<in> set ''ABCDEFGHIJKLMNOPQRSTUVWXYZ''
                      then char_of (of_char c + (32::nat)) else c) s"

text \<open>\<open>number ::= [digitpart] "." digitpart | digitpart ["."]\<close>\<close>

definition float_number :: "string \<Rightarrow> rat option" where
  "float_number m =
     (if CHR ''.'' \<in> set m
      then (let ip = takeWhile (\<lambda>c. c \<noteq> CHR ''.'') m;
                fp = tl (dropWhile (\<lambda>c. c \<noteq> CHR ''.'') m)
            in if ip = [] then
                 (case digitpart fp of None \<Rightarrow> None
                  | Some fs \<Rightarrow> Some (of_nat (dec fs) / 10 ^ length fs))
               else if fp = [] then
                 (case digitpart ip of None \<Rightarrow> None | Some is \<Rightarrow> Some (of_nat (dec is)))
               else
                 (case (digitpart ip, digitpart fp) of
                    (Some is, Some fs) \<Rightarrow>
                       Some (of_nat (dec is) + of_nat (dec fs) / 10 ^ length fs)
                  | _ \<Rightarrow> None))
      else (case digitpart m of None \<Rightarrow> None | Some is \<Rightarrow> Some (of_nat (dec is))))"

text \<open>\<open>exponent ::= ("e" | "E") [sign] digitpart\<close>, given the text after the letter.\<close>

definition float_exponent :: "string \<Rightarrow> int option" where
  "float_exponent e =
     (case e of
        [] \<Rightarrow> None
      | c # cs \<Rightarrow>
          if c = CHR ''-'' then map_option (\<lambda>ds. - int (dec ds)) (digitpart cs)
          else if c = CHR ''+'' then map_option (\<lambda>ds. int (dec ds)) (digitpart cs)
          else map_option (\<lambda>ds. int (dec ds)) (digitpart (c # cs)))"

definition is_e :: "char \<Rightarrow> bool" where
  "is_e c = (c = CHR ''e'' \<or> c = CHR ''E'')"

definition abs_float :: "string \<Rightarrow> error + pyfloat" where
  "abs_float b =
     (if lower b = ''inf'' \<or> lower b = ''infinity'' then Inr Inf_pos
      else if lower b = ''nan'' then Inr Nan
      else if \<exists>c \<in> set b. is_e c
      then (case (float_number (takeWhile (\<lambda>c. \<not> is_e c) b),
                  float_exponent (tl (dropWhile (\<lambda>c. \<not> is_e c) b))) of
              (Some m, Some e) \<Rightarrow>
                 Inr (to_float (m * (if e < 0 then 1 / 10 ^ nat (- e) else 10 ^ nat e)))
            | _ \<Rightarrow> Inl ValueError)
      else (case float_number b of None \<Rightarrow> Inl ValueError | Some m \<Rightarrow> Inr (to_float m)))"

text \<open>\<open>float(s)\<close>: surrounding white space, one optional sign, then \<open>inf\<close>,
  \<open>infinity\<close> or \<open>nan\<close> in any letter case, or a decimal numeral with an optional
  exponent.\<close>

definition py_float :: "string \<Rightarrow> error + pyfloat" where
  "py_float s =
     (case num_strip s of
        [] \<Rightarrow> Inl ValueError
      | c # cs \<Rightarrow>
          if c = CHR ''-'' then map_sum id fl_neg (abs_float cs)
          else if c = CHR ''+'' then abs_float cs
          else abs_float (c # cs))"

section \<open>Exceptions as values\<close>

text \<open>Sequencing: the first exception raised ends the block.\<close>

definition ebind :: "error + 'a \<Rightarrow> ('a \<Rightarrow> error + 'b) \<Rightarrow> error + 'b" where
  "ebind x f = (case x of Inl e \<Rightarrow> Inl e | Inr a \<Rightarrow> f a)"

text \<open>\<open>try: ... except (E1, E2, ...): v = d\<close>: only the listed exceptions are caught.\<close>

definition catch :: "error list \<Rightarrow> 'a \<Rightarrow> error + 'a \<Rightarrow> error + 'a" where
  "catch es d x = (case x of Inl e \<Rightarrow> (if e \<in> set es then Inr d else Inl e) | Inr a \<Rightarrow> Inr a)"

text \<open>\<open>xs[i]\<close> for a non-negative index.\<close>

definition py_index :: "'a list \<Rightarrow> nat \<Rightarrow> error + 'a" where
  "py_index xs i = (if i < length xs then Inr (xs ! i) else Inl IndexError)"

section \<open>Data model\<close>

text \<open>
  The fields of the named tuple \<open>Metar\<close> hold Python values of several types: an
  \<open>int\<close>, a \<open>float\<close>, a \<open>str\<close> or a \<open>datetime\<close>. A missing field is \<open>np.nan\<close>,
  the float nan.
\<close>

datatype val = VInt int | VFloat pyfloat | VStr string
  | VDateTime int int int int int

abbreviation nan :: val where
  "nan \<equiv> VFloat Nan"

definition missing :: "val \<Rightarrow> bool" where
  "missing v = (v = nan)"

text \<open>
  The tree returned by the tokenizer \<open>_metar_parser.metar_parser.parse\<close>. The tokenizer
  is generated from a grammar and lives outside \<open>metar.py\<close>; it is a parameter of
  \<open>parse_metar\<close> below, and the decoder is modelled over its result. Each field is the
  \<open>.text\<close> of a node that \<open>parse_metar\<close> reads (\<open>wind_dir\<close> and \<open>wind_spd\<close> are
  \<open>tree.wind.wind_dir.text\<close> and \<open>tree.wind.wind_spd.text\<close>; \<open>temp\<close> and \<open>dewp\<close> are
  \<open>tree.temp_dewp.temp.text\<close> and \<open>tree.temp_dewp.dewp.text\<close>).
\<close>

record tree =
  siteid :: string
  datetime :: string
  wind :: string
  wind_dir :: string
  wind_spd :: string
  vis :: string
  curwx :: string
  skyc :: string
  temp_dewp :: string
  temp :: string
  dewp :: string
  altim :: string

text \<open>An entry of the station table \<open>station_info\<close> (only the attributes read here).\<close>

record station =
  stn_latitude :: rat
  stn_longitude :: rat
  stn_altitude :: rat

record metar =
  station_id :: string
  latitude :: val
  longitude :: val
  elevation :: val
  date_time :: val
  wind_direction :: val
  wind_speed :: val
  visibility :: val
  current_wx1 :: val
  current_wx2 :: val
  current_wx3 :: val
  skyc1 :: val
  skylev1 :: val
  skyc2 :: val
  skylev2 :: val
  skyc3 :: val
  skylev3 :: val
  skyc4 :: val
  skylev4 :: val
  cloudcover :: int
  temperature :: val
  dewpoint :: val
  altimeter :: val
  current_wx1_symbol :: int
  current_wx2_symbol :: int
  current_wx3_symbol :: int

section \<open>Unit conversions and the \<open>datetime\<close> constructor\<close>

text \<open>
  \<open>metpy.units\<close> is the registry of the unit library. The two conversions asked of it
  are fixed by the definitions of the units: the mile is 1609.344 m, and the inch of
  mercury is \<open>inch * Hg * g_0\<close> with \<open>Hg = 13.5951 kg/l\<close> and \<open>g_0 = 9.80665 m/s^2\<close>,
  that is 3386.388640341 Pa.
\<close>

definition mile_in_meters :: rat where
  "mile_in_meters = 201168 / 125"

definition inHg_in_pascal :: rat where
  "inHg_in_pascal = (254 / 10000) * (135951 / 10) * (980665 / 100000)"

definition hPa_to_inHg :: "int \<Rightarrow> rat" where
  "hPa_to_inHg n = of_int n * 100 / inHg_in_pascal"

definition is_leap :: "int \<Rightarrow> bool" where
  "is_leap y = (y mod 4 = 0 \<and> (y mod 100 \<noteq> 0 \<or> y mod 400 = 0))"

definition days_in_month :: "int \<Rightarrow> int \<Rightarrow> int" where
  "days_in_month y m =
     (if m = 2 then (if is_leap y then 29 else 28)
      else if m = 4 \<or> m = 6 \<or> m = 9 \<or> m = 11 then 30 else 31)"

text \<open>\<open>datetime(year, month, day, hour, minute)\<close> takes its arguments as C integers and
  raises \<open>OverflowError\<close> for one that does not fit; then it raises \<open>ValueError\<close>
  outside the calendar (years 1 to 9999).\<close>

definition c_int :: "int \<Rightarrow> bool" where
  "c_int n = (- (2 ^ 31) \<le> n \<and> n < 2 ^ 31)"

definition py_datetime :: "int \<Rightarrow> int \<Rightarrow> int \<Rightarrow> int \<Rightarrow> int \<Rightarrow> error + val" where
  "py_datetime y mo d h mi =
     (if \<not> (c_int y \<and> c_int mo \<and> c_int d \<and> c_int h \<and> c_int mi) then Inl OverflowError
      else if 1 \<le> y \<and> y \<le> 9999 \<and> 1 \<le> mo \<and> mo \<le> 12 \<and> 1 \<le> d \<and> d \<le> days_in_month y mo
         \<and> 0 \<le> h \<and> h \<le> 23 \<and> 0 \<le> mi \<and> mi \<le> 59
      then Inr (VDateTime y mo d h mi) else Inl ValueError)"

section \<open>The field decoders of \<open>parse_metar\<close>\<close>

text \<open>Each definition is one block of the body of \<open>parse_metar\<close>, in source order.\<close>

text \<open>Lines 155--163: station lookup.\<close>

definition decode_station :: "(string \<rightharpoonup> station) \<Rightarrow> tree \<Rightarrow> error + (val \<times> val \<times> val)" where
  "decode_station station_metadata t =
     catch [KeyError] (nan, nan, nan)
       (case station_metadata (strip (siteid t)) of
          None \<Rightarrow> Inl KeyError
        | Some s \<Rightarrow> Inr (VFloat (Fl (stn_latitude s)), VFloat (Fl (stn_longitude s)),
                         VFloat (Fl (stn_altitude s))))"

text \<open>Lines 165--173: date and time.\<close>

definition decode_date_time :: "tree \<Rightarrow> int \<Rightarrow> int \<Rightarrow> error + val" where
  "decode_date_time t year month =
     catch [AttributeError, ValueError] nan
       (let day_time_utc = strip (drop_last 1 (datetime t)) in
        ebind (py_int (slice 0 2 day_time_utc)) (\<lambda>day.
        ebind (py_int (slice 2 4 day_time_utc)) (\<lambda>hour.
        ebind (py_int (slice 4 7 day_time_utc)) (\<lambda>minute.
        py_datetime year month day hour minute))))"

text \<open>Lines 175--193: wind direction and speed.\<close>

definition decode_wind :: "tree \<Rightarrow> error + (val \<times> val)" where
  "decode_wind t =
     catch [ValueError] (nan, nan)
       (if py_in ''/'' (wind t) \<or> wind t = ''KT'' \<or> wind t = '''' then Inr (nan, nan)
        else if wind_dir t = ''VRB'' \<or> wind_dir t = ''VAR''
        then ebind (py_float (wind_spd t)) (\<lambda>spd. Inr (nan, VFloat spd))
        else ebind (py_int (wind_dir t)) (\<lambda>dir.
             ebind (py_int (wind_spd t)) (\<lambda>spd. Inr (VInt dir, VInt spd))))"

text \<open>Lines 195--220: visibility. Nothing is caught here. The statute-mile branch adds
  the whole part (when the text has a space) to the fraction or the integer that
  follows, and converts miles to metres. The variable \<open>visibility\<close> is an \<open>int\<close> until
  a fraction is added: \<open>int / int\<close> is a float, and adding it converts the \<open>int\<close> so
  far to a float; the unit conversion multiplies by the float 1609.344, which converts
  an \<open>int\<close> magnitude to a float.\<close>

definition sm_whole :: "string \<Rightarrow> error + (int \<times> string)" where
  "sm_whole vis_str =
     (if CHR '' '' \<in> set vis_str
      then (case py_split1 vis_str of
              [whole, rest] \<Rightarrow> ebind (py_int whole) (\<lambda>w. Inr (w, rest))
            | _ \<Rightarrow> Inl ValueError)
      else Inr (0, vis_str))"

definition sm_rest :: "int \<Rightarrow> string \<Rightarrow> error + val" where
  "sm_rest v vis_str =
     (if CHR ''/'' \<in> set vis_str
      then (case py_split_on1 (CHR ''/'') vis_str of
              [num, denom] \<Rightarrow>
                ebind (py_int num) (\<lambda>n.
                ebind (py_int denom) (\<lambda>d.
                ebind (true_div n d) (\<lambda>q.
                ebind (int_to_float v) (\<lambda>f.
                Inr (VFloat (fl_add f q))))))
            | _ \<Rightarrow> Inl ValueError)
      else ebind (py_int vis_str) (\<lambda>n. Inr (VInt (v + n))))"

text \<open>\<open>units.Quantity(visibility, 'miles').m_as('meter')\<close>\<close>

definition miles_to_meters :: "val \<Rightarrow> error + val" where
  "miles_to_meters v =
     (case v of
        VInt n \<Rightarrow> ebind (int_to_float n) (\<lambda>f. Inr (VFloat (fl_scale mile_in_meters f)))
      | VFloat f \<Rightarrow> Inr (VFloat (fl_scale mile_in_meters f))
      | _ \<Rightarrow> Inl TypeError)"

definition decode_visibility :: "tree \<Rightarrow> error + val" where
  "decode_visibility t =
     (if endswith (vis t) ''SM''
      then ebind (sm_whole (strip (drop_last 2 (vis t)))) (\<lambda>(v, vis_str).
           ebind (sm_rest v vis_str) miles_to_meters)
      else if py_in ''CAVOK'' (vis t) then Inr (VInt 10000)
      else if vis t = [] \<or> strip (vis t) = ''////'' then Inr nan
      else ebind (py_int (slice 0 4 (strip (vis t)))) (\<lambda>n. Inr (VInt n)))"

text \<open>Lines 222--249: present weather. The slice assignment
  \<open>wx[0:len(toks)] = toks\<close> on \<open>wx = [nan, nan, nan]\<close> leaves the tokens followed by
  what remains of the three nans. The table \<open>wx_code_map\<close> of \<open>metpy.plots.wx_symbols\<close>
  is a parameter: a dictionary from code strings to integers, so a key that is not a
  string is never found.\<close>

definition wx_lookup :: "(string \<rightharpoonup> int) \<Rightarrow> val \<Rightarrow> error + int" where
  "wx_lookup wx_code_map k =
     (case k of
        VStr s \<Rightarrow> (case wx_code_map s of None \<Rightarrow> Inl KeyError | Some c \<Rightarrow> Inr c)
      | _ \<Rightarrow> Inl KeyError)"

definition wx_symbol :: "(string \<rightharpoonup> int) \<Rightarrow> val list \<Rightarrow> nat \<Rightarrow> error + int" where
  "wx_symbol wx_code_map wx i =
     catch [IndexError, KeyError] 0 (ebind (py_index wx i) (wx_lookup wx_code_map))"

definition decode_curwx ::
  "(string \<rightharpoonup> int) \<Rightarrow> tree \<Rightarrow> error + ((val \<times> val \<times> val) \<times> (int \<times> int \<times> int))" where
  "decode_curwx wx_code_map t =
     (if curwx t = '''' \<or> strip (curwx t) = ''//''
      then Inr ((nan, nan, nan), (0, 0, 0))
      else
        (let toks = py_split (strip (curwx t));
             wx = map VStr toks @ drop (length toks) [nan, nan, nan]
         in ebind (py_index wx 0) (\<lambda>current_wx1.
            ebind (py_index wx 1) (\<lambda>current_wx2.
            ebind (py_index wx 2) (\<lambda>current_wx3.
            ebind (wx_symbol wx_code_map wx 0) (\<lambda>current_wx1_symbol.
            ebind (wx_symbol wx_code_map wx 1) (\<lambda>current_wx2_symbol.
            ebind (wx_symbol wx_code_map wx 2) (\<lambda>current_wx3_symbol.
            Inr ((current_wx1, current_wx2, current_wx3),
                 (current_wx1_symbol, current_wx2_symbol, current_wx3_symbol))))))))))"

text \<open>Lines 251--320: sky cover. The vertical-visibility branch catches nothing; in the
  other branch each layer's type and level have their own \<open>try\<close>.\<close>

definition layer_type :: "error list \<Rightarrow> string list \<Rightarrow> nat \<Rightarrow> error + val" where
  "layer_type es toks i =
     catch es nan
       (ebind (py_index toks i) (\<lambda>tok.
          let c = slice 0 3 tok in
          Inr (if CHR ''/'' \<in> set c then nan else VStr c)))"

definition layer_level :: "string list \<Rightarrow> nat \<Rightarrow> error + val" where
  "layer_level toks i =
     catch [IndexError, ValueError, TypeError] nan
       (ebind (py_index toks i) (\<lambda>tok.
          let l = drop 3 tok in
          if CHR ''/'' \<in> set l then Inr nan
          else ebind (py_float l) (\<lambda>f. Inr (VFloat (fl_scale 100 f)))))"

definition decode_skyc ::
  "tree \<Rightarrow> error + ((val \<times> val) \<times> (val \<times> val) \<times> (val \<times> val) \<times> (val \<times> val))" where
  "decode_skyc t =
     (if slice 1 3 (skyc t) = ''VV''
      then (let level = drop 2 (strip (skyc t)) in
            ebind (if level = ''///'' then Inr nan
                   else ebind (py_int level) (\<lambda>n. Inr (VInt (100 * n)))) (\<lambda>skylev1.
            Inr ((VStr ''VV'', skylev1), (nan, nan), (nan, nan), (nan, nan))))
      else
        (let toks = py_split (strip (skyc t)) in
         ebind (layer_type [IndexError, ValueError, TypeError] toks 0) (\<lambda>skyc1.
         ebind (layer_level toks 0) (\<lambda>skylev1.
         ebind (layer_type [IndexError, ValueError, TypeError] toks 1) (\<lambda>skyc2.
         ebind (layer_level toks 1) (\<lambda>skylev2.
         ebind (layer_type [IndexError, ValueError] toks 2) (\<lambda>skyc3.
         ebind (layer_level toks 2) (\<lambda>skylev3.
         ebind (layer_type [IndexError, ValueError, TypeError] toks 3) (\<lambda>skyc4.
         ebind (layer_level toks 3) (\<lambda>skylev4.
         Inr ((skyc1, skylev1), (skyc2, skylev2), (skyc3, skylev3), (skyc4, skylev4))))))))))))"

text \<open>Lines 322--335: cloud cover in oktas.\<close>

definition decode_cloudcover :: "tree \<Rightarrow> int" where
  "decode_cloudcover t =
     (if py_in ''OVC'' (skyc t) \<or> py_in ''VV'' (skyc t) then 8
      else if py_in ''BKN'' (skyc t) then 6
      else if py_in ''SCT'' (skyc t) then 4
      else if py_in ''FEW'' (skyc t) then 2
      else if py_in ''SKC'' (skyc t) \<or> py_in ''NCD'' (skyc t) \<or> py_in ''NSC'' (skyc t)
              \<or> py_in ''CLR'' (skyc t) \<or> py_in ''CAVOK'' (vis t) then 0
      else 10)"

text \<open>Lines 337--355: temperature and dewpoint.\<close>

definition decode_temp :: "string \<Rightarrow> error + val" where
  "decode_temp s =
     catch [ValueError] nan
       (if py_in ''M'' s
        then ebind (py_float (take_last 2 s)) (\<lambda>f. Inr (VFloat (fl_neg f)))
        else ebind (py_float (take_last 2 s)) (\<lambda>f. Inr (VFloat f)))"

definition decode_temp_dewp :: "tree \<Rightarrow> error + (val \<times> val)" where
  "decode_temp_dewp t =
     (if temp_dewp t = '''' \<or> temp_dewp t = '' MM/MM'' then Inr (nan, nan)
      else ebind (decode_temp (temp t)) (\<lambda>temp.
           ebind (decode_temp (dewp t)) (\<lambda>dewp. Inr (temp, dewp))))"

text \<open>Lines 357--364: altimeter. Nothing is caught here.\<close>

definition decode_altim :: "tree \<Rightarrow> error + val" where
  "decode_altim t =
     (if altim t = '''' then Inr nan
      else ebind (py_float (slice 1 5 (strip (altim t)))) (\<lambda>f.
           if fl_gt f 1100 then Inr (VFloat (fl_scale (1 / 100) f))
           else ebind (py_int (slice 1 5 (strip (altim t)))) (\<lambda>n.
                Inr (VFloat (Fl (hPa_to_inHg n))))))"

section \<open>\<open>parse_metar\<close>\<close>

text \<open>The decoder proper: the body of \<open>parse_metar\<close> after the call of the tokenizer.\<close>

definition decode :: "(string \<rightharpoonup> station) \<Rightarrow> (string \<rightharpoonup> int) \<Rightarrow> tree \<Rightarrow> int \<Rightarrow> int
                      \<Rightarrow> error + metar" where
  "decode station_metadata wx_code_map t year month =
     ebind (decode_station station_metadata t) (\<lambda>(lat, lon, elev).
     ebind (decode_date_time t year month) (\<lambda>date_time.
     ebind (decode_wind t) (\<lambda>(wind_dir, wind_spd).
     ebind (decode_visibility t) (\<lambda>visibility.
     ebind (decode_curwx wx_code_map t) (\<lambda>((wx1, wx2, wx3), (sym1, sym2, sym3)).
     ebind (decode_skyc t) (\<lambda>((skyc1, skylev1), (skyc2, skylev2), (skyc3, skylev3),
                                (skyc4, skylev4)).
     ebind (decode_temp_dewp t) (\<lambda>(temp, dewp).
     ebind (decode_altim t) (\<lambda>altim.
     Inr \<lparr>station_id = strip (siteid t), latitude = lat, longitude = lon, elevation = elev,
          date_time = date_time, wind_direction = wind_dir, wind_speed = wind_spd,
          visibility = visibility, current_wx1 = wx1, current_wx2 = wx2, current_wx3 = wx3,
          skyc1 = skyc1, skylev1 = skylev1, skyc2 = skyc2, skylev2 = skylev2,
          skyc3 = skyc3, skylev3 = skylev3, skyc4 = skyc4, skylev4 = skylev4,
          cloudcover = decode_cloudcover t, temperature = temp, dewpoint = dewp,
          altimeter = altim, current_wx1_symbol = sym1, current_wx2_symbol = sym2,
          current_wx3_symbol = sym3\<rparr>))))))))"

text \<open>\<open>parse_metar(metar_text, year, month, station_metadata)\<close>. The tokenizer \<open>parse\<close>
  raises \<open>ParseError\<close> (here \<open>None\<close>) or returns the tree.\<close>

definition parse_metar :: "(string \<Rightarrow> tree option) \<Rightarrow> (string \<rightharpoonup> int) \<Rightarrow> string \<Rightarrow> int \<Rightarrow> int
                           \<Rightarrow> (string \<rightharpoonup> station) \<Rightarrow> error + metar" where
  "parse_metar parse wx_code_map metar_text year month station_metadata =
     (case parse metar_text of
        None \<Rightarrow> Inl ParseError
      | Some t \<Rightarrow> decode station_metadata wx_code_map t year month)"

section \<open>Statements of the specification\<close>

text \<open>The definitions of this section follow the words of the specification; the
  theorems below compare them with the decoders above.\<close>

text \<open>\<open>contains s sub\<close>: the text \<open>sub\<close> occurs somewhere in \<open>s\<close>.\<close>

definition contains :: "string \<Rightarrow> string \<Rightarrow> bool" where
  "contains s sub = (\<exists>a b. s = a @ sub @ b)"

text \<open>A non-empty text of decimal digits.\<close>

definition digits :: "string \<Rightarrow> bool" where
  "digits s = (s \<noteq> [] \<and> (\<forall>c\<in>set s. is_digit c))"

text \<open>The keyword precedence of the aggregate cloud cover, over the raw sky-cover text
  and the visibility text.\<close>

definition coverage_spec :: "string \<Rightarrow> string \<Rightarrow> int" where
  "coverage_spec sky visib =
     (if contains sky ''OVC'' \<or> contains sky ''VV'' then 8
      else if contains sky ''BKN'' then 6
      else if contains sky ''SCT'' then 4
      else if contains sky ''FEW'' then 2
      else if contains sky ''SKC'' \<or> contains sky ''NCD'' \<or> contains sky ''NSC''
              \<or> contains sky ''CLR'' \<or> contains visib ''CAVOK'' then 0
      else 10)"

text \<open>A decimal numeral short enough for \<open>int\<close> to accept it and for its value to be
  a finite float.\<close>

definition numeral :: "string \<Rightarrow> bool" where
  "numeral s = (digits s \<and> length s \<le> 300)"

text \<open>Wind, with the first case tested on the text of the whole group: a filler
  character anywhere in the group, or the group \<open>KT\<close> or empty, gives two missing
  values; a variable direction gives a missing direction and the speed as a float;
  otherwise both are integers; a conversion error gives two missing values.\<close>

definition wind_rule :: "tree \<Rightarrow> val \<times> val" where
  "wind_rule t =
     (if contains (wind t) ''/'' \<or> wind t = ''KT'' \<or> wind t = ''''
      then (nan, nan)
      else if wind_dir t = ''VRB'' \<or> wind_dir t = ''VAR''
      then (case py_float (wind_spd t) of Inl e \<Rightarrow> (nan, nan) | Inr f \<Rightarrow> (nan, VFloat f))
      else (case py_int (wind_dir t) of
              Inl e \<Rightarrow> (nan, nan)
            | Inr d \<Rightarrow> (case py_int (wind_spd t) of
                          Inl e \<Rightarrow> (nan, nan)
                        | Inr s \<Rightarrow> (VInt d, VInt s))))"

text \<open>Wind, with the first case tested on the two tokens: the direction and the speed
  both with filler, or the group \<open>KT\<close> or empty, give two missing values; the other
  cases as above.\<close>

definition wind_spec :: "tree \<Rightarrow> val \<times> val" where
  "wind_spec t =
     (if (CHR ''/'' \<in> set (wind_dir t) \<and> CHR ''/'' \<in> set (wind_spd t))
         \<or> wind t = ''KT'' \<or> wind t = ''''
      then (nan, nan)
      else if wind_dir t = ''VRB'' \<or> wind_dir t = ''VAR''
      then (case py_float (wind_spd t) of Inl e \<Rightarrow> (nan, nan) | Inr f \<Rightarrow> (nan, VFloat f))
      else (case py_int (wind_dir t) of
              Inl e \<Rightarrow> (nan, nan)
            | Inr d \<Rightarrow> (case py_int (wind_spd t) of
                          Inl e \<Rightarrow> (nan, nan)
                        | Inr s \<Rightarrow> (VInt d, VInt s))))"

text \<open>Temperature or dewpoint sub-token: the last two characters are the magnitude, the
  letter \<open>M\<close> anywhere negates it, a conversion error gives a missing value.\<close>

definition temp_spec :: "string \<Rightarrow> val" where
  "temp_spec s =
     (case py_float (take_last 2 s) of
        Inl e \<Rightarrow> nan
      | Inr f \<Rightarrow> VFloat (if CHR ''M'' \<in> set s then fl_neg f else f))"

section \<open>Sample data\<close>

text \<open>The groups of the report
  \<open>KDEN 121853Z 28015KT 1 1/4SM -RA BR FEW010 OVC020 M05/10 A2992\<close>, each with the
  separator in front of it, small lookup tables, and the record decoded from them.\<close>

definition sample_report :: string where
  "sample_report = ''KDEN 121853Z 28015KT 1 1/4SM -RA BR FEW010 OVC020 M05/10 A2992''"

definition sample_tree :: tree where
  "sample_tree = \<lparr>siteid = ''KDEN'', datetime = '' 121853Z'', wind = '' 28015KT'',
     wind_dir = ''280'', wind_spd = ''15'', vis = '' 1 1/4SM'', curwx = '' -RA BR'',
     skyc = '' FEW010 OVC020'', temp_dewp = '' M05/10'', temp = ''M05'', dewp = ''10'',
     altim = '' A2992''\<rparr>"

definition sample_parse :: "string \<Rightarrow> tree option" where
  "sample_parse s = (if s = sample_report then Some sample_tree else None)"

definition sample_wx_code_map :: "string \<rightharpoonup> int" where
  "sample_wx_code_map = [''-RA'' \<mapsto> 61, ''BR'' \<mapsto> 10]"

definition sample_stations :: "string \<rightharpoonup> station" where
  "sample_stations =
     [''KDEN'' \<mapsto> \<lparr>stn_latitude = 3985 / 100, stn_longitude = - 10465 / 100,
                    stn_altitude = 1640\<rparr>]"

definition sample_metar :: metar where
  "sample_metar = \<lparr>station_id = ''KDEN'', latitude = VFloat (Fl (797 / 20)),
     longitude = VFloat (Fl (- 2093 / 20)), elevation = VFloat (Fl 1640),
     date_time = VDateTime 2019 2 12 18 53,
     wind_direction = VInt 280, wind_speed = VInt 15,
     visibility = VFloat (Fl (50292 / 25)), current_wx1 = VStr ''-RA'',
     current_wx2 = VStr ''BR'', current_wx3 = nan, skyc1 = VStr ''FEW'',
     skylev1 = VFloat (Fl 1000), skyc2 = VStr ''OVC'',
     skylev2 = VFloat (Fl 2000), skyc3 = nan, skylev3 = nan, skyc4 = nan,
     skylev4 = nan, cloudcover = 8, temperature = VFloat (Fl (- 5)),
     dewpoint = VFloat (Fl 10), altimeter = VFloat (Fl (748 / 25)),
     current_wx1_symbol = 61, current_wx2_symbol = 10,
     current_wx3_symbol = 0\<rparr>"

text \<open>Variants of the sample tree with one group replaced.\<close>

definition variable_wind_tree :: tree where
  "variable_wind_tree = sample_tree\<lparr>wind := '' VRB05KT'', wind_dir := ''VRB'', wind_spd := ''05''\<rparr>"

definition filler_wind_tree :: tree where
  "filler_wind_tree = sample_tree\<lparr>wind := '' /////KT'', wind_dir := ''///'', wind_spd := ''//''\<rparr>"

text \<open>A wind group \<open>28015G//KT\<close>, with the filler in the gust.\<close>

definition gust_filler_tree :: tree where
  "gust_filler_tree = sample_tree\<lparr>wind := '' 28015G//KT''\<rparr>"

definition mile_vis_tree :: tree where
  "mile_vis_tree = sample_tree\<lparr>vis := ''1 1/4SM''\<rparr>"

definition meter_vis_tree :: tree where
  "meter_vis_tree = sample_tree\<lparr>vis := ''9999''\<rparr>"

definition garbled_temp_tree :: tree where
  "garbled_temp_tree = sample_tree\<lparr>temp_dewp := '' MXX/10'', temp := ''MXX''\<rparr>"

definition hpa_altim_tree :: tree where
  "hpa_altim_tree = sample_tree\<lparr>altim := '' Q1013''\<rparr>"

text \<open>A report whose visibility group is the fraction \<open>1/0SM\<close>.\<close>

definition zero_denominator_report :: string where
  "zero_denominator_report = ''KDEN 121853Z 28015KT 1/0SM -RA BR FEW010 OVC020 M05/10 A2992''"

definition zero_denominator_tree :: tree where
  "zero_denominator_tree = sample_tree\<lparr>vis := '' 1/0SM''\<rparr>"

definition zero_denominator_parse :: "string \<Rightarrow> tree option" where
  "zero_denominator_parse s =
     (if s = zero_denominator_report then Some zero_denominator_tree else None)"

section \<open>Facts about the text primitives\<close>

lemma startswith_iff: "startswith s p \<longleftrightarrow> (\<exists>b. s = p @ b)"
  unfolding startswith_def
  by (metis append_eq_conv_conj append_take_drop_id)

lemma py_in_iff: "py_in sub s \<longleftrightarrow> (\<exists>a b. s = a @ sub @ b)"
proof (induction s)
  case Nil
  then show ?case by auto
next
  case (Cons c cs)
  show ?case
  proof
    assume "py_in sub (c # cs)"
    then consider "startswith (c # cs) sub" | "py_in sub cs" by auto
    then show "\<exists>a b. c # cs = a @ sub @ b"
    proof cases
      case 1
      then obtain b where "c # cs = sub @ b" by (auto simp: startswith_iff)
      then have "c # cs = [] @ sub @ b" by simp
      then show ?thesis by blast
    next
      case 2
      then obtain a b where "cs = a @ sub @ b" using Cons.IH by blast
      then have "c # cs = (c # a) @ sub @ b" by simp
      then show ?thesis by blast
    qed
  next
    assume "\<exists>a b. c # cs = a @ sub @ b"
    then obtain a b where ab: "c # cs = a @ sub @ b" by blast
    show "py_in sub (c # cs)"
    proof (cases a)
      case Nil
      then have "startswith (c # cs) sub" using ab by (auto simp: startswith_iff)
      then show ?thesis by simp
    next
      case (Cons x xs)
      then have "cs = xs @ sub @ b" using ab by simp
      then have "py_in sub cs" using Cons.IH by blast
      then show ?thesis by simp
    qed
  qed
qed

lemma py_in_contains: "py_in sub s = contains s sub"
  by (simp add: py_in_iff contains_def)

lemma py_in_char: "py_in [c] s \<longleftrightarrow> c \<in> set s"
  by (induction s) (auto simp: startswith_def)

lemma endswith_append: "endswith (x @ p) p"
  by (simp add: endswith_def)

lemma drop_last_SM: "drop_last 2 (x @ ''SM'') = x"
  by (simp add: drop_last_def)

lemma slice_1_5:
  assumes "length ds = 4"
  shows "slice 1 5 (c # ds) = ds"
  using assms by (simp add: slice_def)

lemma in_dropWhile: "c \<in> set s \<Longrightarrow> \<not> P c \<Longrightarrow> c \<in> set (dropWhile P s)"
  by (induction s) auto

lemma in_strip: "c \<in> set s \<Longrightarrow> \<not> py_isspace c \<Longrightarrow> c \<in> set (strip s)"
  by (simp add: strip_def in_dropWhile)

lemma in_num_strip: "c \<in> set s \<Longrightarrow> \<not> py_numspace c \<Longrightarrow> c \<in> set (num_strip s)"
  by (simp add: num_strip_def in_dropWhile)

lemma num_strip_id:
  assumes "s \<noteq> []" "\<not> py_numspace (hd s)" "\<not> py_numspace (last s)"
  shows "num_strip s = s"
proof -
  have 1: "dropWhile py_numspace s = s" using assms by (cases s) auto
  have "rev s \<noteq> []" "\<not> py_numspace (hd (rev s))" using assms by (auto simp: hd_rev)
  then have 2: "dropWhile py_numspace (rev s) = rev s" by (cases "rev s") auto
  show ?thesis by (simp add: num_strip_def 1 2)
qed

lemma strip_id:
  assumes "s \<noteq> []" "\<not> py_isspace (hd s)" "\<not> py_isspace (last s)"
  shows "strip s = s"
proof -
  have 1: "dropWhile py_isspace s = s" using assms by (cases s) auto
  have "rev s \<noteq> []" "\<not> py_isspace (hd (rev s))" using assms by (auto simp: hd_rev)
  then have 2: "dropWhile py_isspace (rev s) = rev s" by (cases "rev s") auto
  show ?thesis by (simp add: strip_def 1 2)
qed

lemma strip_leading:
  assumes "\<forall>c\<in>set pre. py_isspace c"
  shows "strip (pre @ s) = strip s"
  using assms by (simp add: strip_def dropWhile_append2)

lemma strip_group:
  assumes "\<forall>x\<in>set pre. py_isspace x" "s \<noteq> []" "\<not> py_isspace (hd s)" "\<not> py_isspace (last s)"
  shows "strip (pre @ s) = s"
  using assms by (simp add: strip_leading strip_id)

lemma split_parts:
  "x \<in> set m \<Longrightarrow> P x \<Longrightarrow> x \<in> set (takeWhile P m) \<or> x \<in> set (tl (dropWhile P m))"
  by (induction m) auto

subsection \<open>Digits\<close>

lemma digit_not_space: "is_digit c \<Longrightarrow> \<not> py_isspace c"
  by (auto simp: is_digit_def py_isspace_def)

lemma digit_not_numspace: "is_digit c \<Longrightarrow> \<not> py_numspace c"
  by (auto simp: is_digit_def py_numspace_def)

lemma digit_val_le: "is_digit c \<Longrightarrow> digit_val c \<le> 9"
  by (auto simp: is_digit_def digit_val_def)

lemma digit_chars:
  assumes "is_digit c"
  shows "c \<noteq> CHR ''-''" "c \<noteq> CHR ''+''" "c \<noteq> CHR ''.''" "\<not> is_e c"
    "c \<noteq> CHR ''i''" "c \<noteq> CHR ''n''" "c \<noteq> CHR ''/''" "c \<noteq> CHR ''M''" "c \<noteq> CHR '' ''"
  using assms by (auto simp: is_digit_def is_e_def)

lemma strip_digits:
  assumes "ds \<noteq> []" "\<forall>c\<in>set ds. is_digit c"
  shows "strip ds = ds"
  using assms by (intro strip_id) (auto simp: digit_not_space)

lemma num_strip_digits:
  assumes "ds \<noteq> []" "\<forall>c\<in>set ds. is_digit c"
  shows "num_strip ds = ds"
  using assms by (intro num_strip_id) (auto simp: digit_not_numspace)

lemma digits_no_space: "digits s \<Longrightarrow> \<forall>c\<in>set s. \<not> py_isspace c"
  by (simp add: digits_def digit_not_space)

lemma digits_hd_last: "digits s \<Longrightarrow> \<not> py_isspace (hd s) \<and> \<not> py_isspace (last s)"
  by (simp add: digits_def digit_not_space)

lemma digits_no_char:
  assumes "digits s"
  shows "CHR ''/'' \<notin> set s" "CHR '' '' \<notin> set s"
  using assms digit_chars(7,9) by (auto simp: digits_def)

lemma dec_two: "dec [d1, d2] = 10 * digit_val d1 + digit_val d2"
  by (simp add: dec_def)

lemma dec_snoc: "dec (ds @ [c]) = 10 * dec ds + digit_val c"
  by (simp add: dec_def)

text \<open>A numeral of \<open>k\<close> digits is below \<open>10^k\<close>.\<close>

lemma dec_less:
  assumes "\<forall>c\<in>set ds. is_digit c"
  shows "dec ds < 10 ^ length ds"
  using assms
proof (induction ds rule: rev_induct)
  case Nil
  then show ?case by (simp add: dec_def)
next
  case (snoc c ds)
  then have "dec ds < 10 ^ length ds" "digit_val c \<le> 9"
    by (simp_all add: digit_val_le)
  then have "10 * dec ds + digit_val c < 10 * 10 ^ length ds"
    by linarith
  then show ?case by (simp add: dec_snoc)
qed

lemma dec_less_bound:
  assumes "\<forall>c\<in>set ds. is_digit c" "length ds \<le> k"
  shows "dec ds < 10 ^ k"
proof -
  have "(10::nat) ^ length ds \<le> 10 ^ k"
    using assms(2) by (intro power_increasing) simp_all
  then show ?thesis
    using dec_less[OF assms(1)] by linarith
qed

subsection \<open>The finite range of floats\<close>

lemma to_float_nat:
  assumes "n < 10 ^ 304"
  shows "to_float (of_nat n) = Fl (of_nat n)"
proof -
  have "(of_nat n :: rat) < of_nat (10 ^ 304)"
    using assms by (simp only: of_nat_less_iff)
  then have b: "(of_nat n :: rat) < 10 ^ 304" by simp
  have "(10 :: rat) ^ 304 < float_overflow"
    by (simp add: float_overflow_def)
  then have 1: "\<not> float_overflow \<le> (of_nat n :: rat)"
    using b by linarith
  have "(0::rat) < float_overflow" by (simp add: float_overflow_def)
  moreover have "(0::rat) \<le> of_nat n" by simp
  ultimately have 2: "\<not> (of_nat n :: rat) \<le> - float_overflow"
    by linarith
  show ?thesis
  proof (cases "n = 0")
    case True
    then show ?thesis using 1 2 by (simp add: to_float_def)
  next
    case False
    then have "(1::rat) \<le> of_nat n" by simp
    moreover have "float_underflow < (1::rat)" by (simp add: float_underflow_def)
    ultimately have "\<not> \<bar>of_nat n :: rat\<bar> \<le> float_underflow" by simp
    then show ?thesis using 1 2 by (simp add: to_float_def)
  qed
qed

subsection \<open>Splitting\<close>

lemma space_isspace: "py_isspace (CHR '' '')"
  by (simp add: py_isspace_def)

lemma word_dropWhile_space:
  assumes "w \<noteq> []" "\<forall>c\<in>set w. \<not> py_isspace c"
  shows "dropWhile py_isspace (w @ CHR '' '' # r) = w @ CHR '' '' # r"
  using assms by (cases w) auto

lemma word_takeWhile:
  assumes "\<forall>c\<in>set w. \<not> py_isspace c"
  shows "takeWhile (\<lambda>c. \<not> py_isspace c) (w @ CHR '' '' # r) = w"
proof -
  have "takeWhile (\<lambda>c. \<not> py_isspace c) (w @ CHR '' '' # r)
      = w @ takeWhile (\<lambda>c. \<not> py_isspace c) (CHR '' '' # r)"
    using assms by (intro takeWhile_append2) auto
  then show ?thesis using space_isspace by simp
qed

lemma word_dropWhile:
  assumes "\<forall>c\<in>set w. \<not> py_isspace c"
  shows "dropWhile (\<lambda>c. \<not> py_isspace c) (w @ CHR '' '' # r) = CHR '' '' # r"
proof -
  have "dropWhile (\<lambda>c. \<not> py_isspace c) (w @ CHR '' '' # r)
      = dropWhile (\<lambda>c. \<not> py_isspace c) (CHR '' '' # r)"
    using assms by (intro dropWhile_append2) auto
  then show ?thesis using space_isspace by simp
qed

lemma space_dropWhile:
  assumes "r \<noteq> []" "\<not> py_isspace (hd r)"
  shows "dropWhile py_isspace (CHR '' '' # r) = r"
  using assms space_isspace by (cases r) auto

lemma py_split1_two:
  assumes "w \<noteq> []" "\<forall>c\<in>set w. \<not> py_isspace c" "r \<noteq> []" "\<not> py_isspace (hd r)"
  shows "py_split1 (w @ '' '' @ r) = [w, r]"
proof -
  have "py_split1 (w @ CHR '' '' # r) = [w, r]"
    unfolding py_split1_def Let_def word_dropWhile_space[OF assms(1,2)]
      word_takeWhile[OF assms(2)] word_dropWhile[OF assms(2)] space_dropWhile[OF assms(3,4)]
    using assms(1,3) by simp
  then show ?thesis by simp
qed

lemma py_split_on1_two:
  assumes "sep \<notin> set n"
  shows "py_split_on1 sep (n @ sep # d) = [n, d]"
proof -
  have "takeWhile (\<lambda>c. c \<noteq> sep) (n @ sep # d) = n @ takeWhile (\<lambda>c. c \<noteq> sep) (sep # d)"
    using assms by (intro takeWhile_append2) auto
  moreover have "dropWhile (\<lambda>c. c \<noteq> sep) (n @ sep # d) = dropWhile (\<lambda>c. c \<noteq> sep) (sep # d)"
    using assms by (intro dropWhile_append2) auto
  ultimately show ?thesis
    by (simp add: py_split_on1_def)
qed

subsection \<open>\<open>int\<close> and \<open>float\<close>\<close>

lemma digitpart_chars:
  "digitpart u = Some ds \<Longrightarrow> c \<in> set u \<Longrightarrow> is_digit c \<or> c = CHR ''_''"
  by (induction u arbitrary: ds rule: digitpart.induct) (auto split: if_splits)

lemma digitpart_digits:
  "ds \<noteq> [] \<Longrightarrow> \<forall>c\<in>set ds. is_digit c \<Longrightarrow> digitpart ds = Some ds"
  by (induction ds rule: digitpart.induct) (auto simp: is_digit_def)

lemma digitpart_slash: "CHR ''/'' \<in> set u \<Longrightarrow> digitpart u = None"
proof (cases "digitpart u")
  case None
  then show ?thesis .
next
  case (Some ds)
  assume "CHR ''/'' \<in> set u"
  from digitpart_chars[OF Some this] show ?thesis by (simp add: is_digit_def)
qed

lemma py_int_digits:
  assumes "ds \<noteq> []" "\<forall>c\<in>set ds. is_digit c" "length ds \<le> 4300"
  shows "py_int ds = Inr (int (dec ds))"
proof -
  obtain c cs where ds: "ds = c # cs" using assms(1) by (cases ds) auto
  have "is_digit c" using assms(2) ds by simp
  then have "c \<noteq> CHR ''-''" "c \<noteq> CHR ''+''" by (auto simp: is_digit_def)
  moreover have "unsigned_int ds = Inr (int (dec ds))"
    using digitpart_digits[OF assms(1,2)] assms(3)
    by (simp add: unsigned_int_def int_max_str_digits_def)
  ultimately show ?thesis
    using num_strip_digits[OF assms(1,2)] ds
    by (simp add: py_int_def)
qed

lemma unsigned_int_slash: "CHR ''/'' \<in> set u \<Longrightarrow> unsigned_int u = Inl ValueError"
proof -
  assume a: "CHR ''/'' \<in> set u"
  have "digitpart u = None"
  proof (cases "digitpart u")
    case None
    then show ?thesis .
  next
    case (Some ds)
    from digitpart_chars[OF Some a] show ?thesis by (simp add: is_digit_def)
  qed
  then show ?thesis by (simp add: unsigned_int_def)
qed

text \<open>A text with a filler character is never an integer.\<close>

lemma py_int_slash:
  assumes "CHR ''/'' \<in> set s"
  shows "py_int s = Inl ValueError"
proof -
  have "CHR ''/'' \<in> set (num_strip s)"
    using assms by (intro in_num_strip) (auto simp: py_numspace_def)
  then show ?thesis
    by (auto simp: py_int_def unsigned_int_slash split: list.splits)
qed

lemma unsigned_int_error: "unsigned_int u = Inl e \<Longrightarrow> e = ValueError"
  by (auto simp: unsigned_int_def split: option.splits if_splits)

text \<open>\<open>int\<close> and \<open>float\<close> raise nothing but \<open>ValueError\<close>.\<close>

lemma py_int_error: "py_int s = Inl e \<Longrightarrow> e = ValueError"
  by (auto simp: py_int_def map_sum_def dest: unsigned_int_error
           split: list.splits if_splits sum.splits)

lemma abs_float_error: "abs_float b = Inl e \<Longrightarrow> e = ValueError"
  by (auto simp: abs_float_def split: if_splits option.splits prod.splits)

lemma py_float_error: "py_float s = Inl e \<Longrightarrow> e = ValueError"
  by (auto simp: py_float_def map_sum_def dest: abs_float_error
           split: list.splits if_splits sum.splits)

lemma lower_digits: "\<forall>c\<in>set ds. is_digit c \<Longrightarrow> lower ds = ds"
  by (induction ds) (auto simp: lower_def is_digit_def)

lemma py_float_digits:
  assumes "ds \<noteq> []" "\<forall>c\<in>set ds. is_digit c" "length ds \<le> 304"
  shows "py_float ds = Inr (Fl (of_nat (dec ds)))"
proof -
  obtain c cs where ds: "ds = c # cs" using assms(1) by (cases ds) auto
  have c: "is_digit c" using assms(2) ds by simp
  have low: "lower ds = ds" using assms(2) by (rule lower_digits)
  have kw: "ds \<noteq> ''inf''" "ds \<noteq> ''infinity''" "ds \<noteq> ''nan''"
    using digit_chars(5,6)[OF c] ds by simp_all
  have noe: "\<not> (\<exists>x\<in>set ds. is_e x)"
    using assms(2) digit_chars(4) by blast
  have nodot: "CHR ''.'' \<notin> set ds"
    using assms(2) digit_chars(3) by blast
  have num: "float_number ds = Some (of_nat (dec ds))"
    using nodot digitpart_digits[OF assms(1,2)] by (simp add: float_number_def)
  have fin: "to_float (of_nat (dec ds)) = Fl (of_nat (dec ds))"
    using dec_less_bound[OF assms(2,3)] by (rule to_float_nat)
  have "abs_float ds = Inr (Fl (of_nat (dec ds)))"
    using low kw noe num fin by (simp add: abs_float_def)
  then show ?thesis
    using num_strip_digits[OF assms(1,2)] ds digit_chars(1,2)[OF c] by (simp add: py_float_def)
qed

lemma float_number_slash:
  assumes "CHR ''/'' \<in> set m"
  shows "float_number m = None"
proof (cases "CHR ''.'' \<in> set m")
  case False
  then show ?thesis using assms by (simp add: float_number_def digitpart_slash)
next
  case True
  let ?ip = "takeWhile (\<lambda>c. c \<noteq> CHR ''.'') m"
  let ?fp = "tl (dropWhile (\<lambda>c. c \<noteq> CHR ''.'') m)"
  have "CHR ''/'' \<in> set ?ip \<or> CHR ''/'' \<in> set ?fp"
    using split_parts[OF assms, of "\<lambda>c. c \<noteq> CHR ''.''"] by simp
  then have "digitpart ?ip = None \<or> digitpart ?fp = None"
    by (auto simp: digitpart_slash)
  moreover have "?ip = [] \<longrightarrow> CHR ''/'' \<in> set ?fp" "?fp = [] \<longrightarrow> CHR ''/'' \<in> set ?ip"
    using \<open>CHR ''/'' \<in> set ?ip \<or> CHR ''/'' \<in> set ?fp\<close> by auto
  ultimately show ?thesis
    using True
    by (auto simp: float_number_def Let_def digitpart_slash split: option.splits)
qed

lemma float_exponent_slash:
  assumes "CHR ''/'' \<in> set e"
  shows "float_exponent e = None"
  using assms by (cases e) (auto simp: float_exponent_def digitpart_slash)

lemma lower_slash: "CHR ''/'' \<in> set b \<Longrightarrow> CHR ''/'' \<in> set (lower b)"
  by (induction b) (auto simp: lower_def)

lemma abs_float_slash:
  assumes "CHR ''/'' \<in> set b"
  shows "abs_float b = Inl ValueError"
proof -
  have kw: "lower b \<noteq> ''inf''" "lower b \<noteq> ''infinity''" "lower b \<noteq> ''nan''"
    using lower_slash[OF assms] by auto
  show ?thesis
  proof (cases "\<exists>c\<in>set b. is_e c")
    case False
    then show ?thesis using kw assms by (simp add: abs_float_def float_number_slash)
  next
    case True
    have "CHR ''/'' \<in> set (takeWhile (\<lambda>c. \<not> is_e c) b)
          \<or> CHR ''/'' \<in> set (tl (dropWhile (\<lambda>c. \<not> is_e c) b))"
      using split_parts[OF assms, of "\<lambda>c. \<not> is_e c"] by (simp add: is_e_def)
    then have "float_number (takeWhile (\<lambda>c. \<not> is_e c) b) = None
          \<or> float_exponent (tl (dropWhile (\<lambda>c. \<not> is_e c) b)) = None"
      by (auto simp: float_number_slash float_exponent_slash)
    then show ?thesis
      using True kw by (auto simp: abs_float_def split: option.splits)
  qed
qed

text \<open>A text with a filler character is never a float.\<close>

lemma py_float_slash:
  assumes "CHR ''/'' \<in> set s"
  shows "py_float s = Inl ValueError"
proof -
  have "CHR ''/'' \<in> set (num_strip s)"
    using assms by (intro in_num_strip) (auto simp: py_numspace_def)
  then show ?thesis
    by (auto simp: py_float_def abs_float_slash split: list.splits)
qed

section \<open>The record returned by the decoder\<close>

text \<open>When the decoder returns, each field of the record is the result of its block.\<close>

lemma decode_InrD:
  assumes "decode st wx t y mo = Inr m"
  shows "decode_wind t = Inr (wind_direction m, wind_speed m)"
    and "decode_visibility t = Inr (visibility m)"
    and "cloudcover m = decode_cloudcover t"
    and "decode_curwx wx t = Inr ((current_wx1 m, current_wx2 m, current_wx3 m),
           (current_wx1_symbol m, current_wx2_symbol m, current_wx3_symbol m))"
    and "decode_temp_dewp t = Inr (temperature m, dewpoint m)"
    and "decode_altim t = Inr (altimeter m)"
  using assms unfolding decode_def ebind_def
  by (auto split: sum.splits prod.splits)

lemma parse_metar_InrD:
  assumes "parse_metar parse wx metar_text y mo st = Inr m"
  shows "\<exists>t. parse metar_text = Some t \<and> decode st wx t y mo = Inr m"
  using assms by (auto simp: parse_metar_def split: option.splits)

section \<open>Evaluation on concrete reports\<close>

lemmas py_defs = strip_def py_isspace_def py_split_def py_split1_def py_split_on1_def
  startswith_def endswith_def slice_def drop_last_def take_last_def is_digit_def digit_val_def
  dec_def unsigned_int_def py_int_def lower_def float_number_def float_exponent_def is_e_def
  abs_float_def py_float_def ebind_def catch_def py_index_def num_strip_def py_numspace_def
  int_max_str_digits_def float_overflow_def float_underflow_def to_float_def int_to_float_def
  true_div_def

lemmas decode_defs = decode_station_def decode_date_time_def decode_wind_def sm_whole_def
  sm_rest_def decode_visibility_def wx_lookup_def wx_symbol_def decode_curwx_def
  layer_type_def layer_level_def decode_skyc_def decode_cloudcover_def decode_temp_def
  decode_temp_dewp_def decode_altim_def mile_in_meters_def hPa_to_inHg_def
  inHg_in_pascal_def py_datetime_def days_in_month_def is_leap_def miles_to_meters_def
  c_int_def

lemma sample_decode:
  "decode sample_stations sample_wx_code_map sample_tree 2019 2 = Inr sample_metar"
  by (simp add: decode_def decode_defs py_defs sample_tree_def sample_stations_def
                sample_wx_code_map_def sample_metar_def)

lemma sample_parse_metar:
  "parse_metar sample_parse sample_wx_code_map sample_report 2019 2 sample_stations
     = Inr sample_metar"
  by (simp add: parse_metar_def sample_parse_def sample_decode)

section \<open>Visibility\<close>

text \<open>An exact result that is zero, or between \<open>10^-300\<close> and \<open>10^304\<close> in magnitude, is
  a finite float.\<close>

lemma to_float_mid:
  assumes "r = 0 \<or> 1 / 10 ^ 300 \<le> \<bar>r\<bar>" "\<bar>r\<bar> < 10 ^ 304"
  shows "to_float r = Fl r"
proof -
  have o: "(10 :: rat) ^ 304 < float_overflow"
    by (simp add: float_overflow_def)
  have u: "float_underflow < (1 / 10 ^ 300 :: rat)"
    by (simp add: float_underflow_def)
  have 1: "\<not> float_overflow \<le> r" "\<not> r \<le> - float_overflow"
    using assms(2) o by linarith+
  show ?thesis
  proof (cases "r = 0")
    case True
    then show ?thesis using 1 by (simp add: to_float_def)
  next
    case False
    then have "\<not> \<bar>r\<bar> \<le> float_underflow" using assms(1) u by linarith
    then show ?thesis using 1 by (simp add: to_float_def)
  qed
qed

lemma to_float_pos:
  assumes "r = 0 \<or> 1 / 10 ^ 300 \<le> r" "0 \<le> r" "r < 10 ^ 304"
  shows "to_float r = Fl r"
proof -
  have "\<bar>r\<bar> = r" using assms(2) by simp
  then show ?thesis
    using assms(1,3) to_float_mid[of r] by simp
qed

lemma of_nat_bound:
  fixes b :: nat
  assumes "b < 10 ^ 300"
  shows "(of_nat b :: rat) < 10 ^ 300"
proof -
  have "(of_nat b :: rat) < of_nat (10 ^ 300)" using assms by (simp only: of_nat_less_iff)
  then show ?thesis by simp
qed

lemma quotient_bounds:
  fixes b c :: nat
  assumes "b < 10 ^ 300" "0 < c" "c < 10 ^ 300"
  shows "(of_nat b / of_nat c :: rat) = 0 \<or> 1 / 10 ^ 300 \<le> (of_nat b / of_nat c :: rat)"
    and "(0 :: rat) \<le> of_nat b / of_nat c"
    and "(of_nat b / of_nat c :: rat) < 10 ^ 300"
proof -
  have c1: "(1 :: rat) \<le> of_nat c" using assms(2) by simp
  have cB: "(of_nat c :: rat) < 10 ^ 300" using assms(3) by (rule of_nat_bound)
  have bB: "(of_nat b :: rat) < 10 ^ 300" using assms(1) by (rule of_nat_bound)
  show "(0 :: rat) \<le> of_nat b / of_nat c" by simp
  have "(of_nat b / of_nat c :: rat) \<le> of_nat b / 1"
    using c1 by (intro divide_left_mono) simp_all
  then show "(of_nat b / of_nat c :: rat) < 10 ^ 300" using bB by simp
  show "(of_nat b / of_nat c :: rat) = 0 \<or> 1 / 10 ^ 300 \<le> (of_nat b / of_nat c :: rat)"
  proof (cases "b = 0")
    case True
    then show ?thesis by simp
  next
    case False
    then have "(1 :: rat) \<le> of_nat b" by simp
    then have "(1 / 10 ^ 300 :: rat) \<le> of_nat b / of_nat c"
      using cB c1 by (intro frac_le) simp_all
    then show ?thesis by simp
  qed
qed

lemma int_to_float_nat:
  assumes "a < 10 ^ 300"
  shows "int_to_float (int a) = Inr (Fl (of_nat a))"
proof -
  have "(10 :: rat) ^ 300 < float_overflow"
    by (simp add: float_overflow_def)
  then have "\<not> float_overflow \<le> \<bar>of_nat a :: rat\<bar>"
    using of_nat_bound[OF assms] by simp
  then show ?thesis
    by (simp add: int_to_float_def)
qed

lemma true_div_nat:
  assumes "b < 10 ^ 300" "0 < c" "c < 10 ^ 300"
  shows "true_div (int b) (int c) = Inr (Fl (of_nat b / of_nat c))"
proof -
  let ?q = "of_nat b / of_nat c :: rat"
  note q = quotient_bounds[OF assms]
  have o: "(10 :: rat) ^ 300 < float_overflow"
    by (simp add: float_overflow_def)
  have 1: "\<not> float_overflow \<le> \<bar>?q\<bar>"
    using q(2,3) o by linarith
  have "(10 :: rat) ^ 300 < 10 ^ 304" by simp
  then have "?q < 10 ^ 304" using q(3) by linarith
  then have "to_float ?q = Fl ?q"
    using q(1,2) by (intro to_float_pos)
  then show ?thesis
    using 1 assms(2) by (simp add: true_div_def)
qed

text \<open>Miles to metres, for a whole part \<open>a\<close> and a fraction \<open>q\<close> in the ranges above.\<close>

lemma miles_sum:
  fixes a :: nat and q :: rat
  assumes "a < 10 ^ 300" "q = 0 \<or> 1 / 10 ^ 300 \<le> q" "0 \<le> q" "q < 10 ^ 300"
  shows "to_float (of_nat a + q) = Fl (of_nat a + q)"
    and "to_float (mile_in_meters * (of_nat a + q)) = Fl ((of_nat a + q) * (201168 / 125))"
proof -
  let ?s = "of_nat a + q :: rat"
  have a0: "(0 :: rat) \<le> of_nat a" by simp
  have aB: "(of_nat a :: rat) < 10 ^ 300" using assms(1) by (rule of_nat_bound)
  have s0: "0 \<le> ?s" using assms(3) a0 by linarith
  have sB: "?s < 2 * 10 ^ 300" using aB assms(4) by linarith
  have sl: "?s = 0 \<or> 1 / 10 ^ 300 \<le> ?s"
  proof (cases "a = 0")
    case True
    then show ?thesis using assms(2) by simp
  next
    case False
    then have "(1 :: rat) \<le> of_nat a" by simp
    moreover have "(1 / 10 ^ 300 :: rat) \<le> 1" by simp
    ultimately have "(1 / 10 ^ 300 :: rat) \<le> ?s" using assms(3) by linarith
    then show ?thesis ..
  qed
  have "(2 :: rat) * 10 ^ 300 < 10 ^ 304" by simp
  then have "?s < 10 ^ 304" using sB by linarith
  then show "to_float ?s = Fl ?s"
    using sl s0 by (intro to_float_pos)
  let ?m = "mile_in_meters * ?s"
  have m0: "0 \<le> ?m" using s0 by (simp add: mile_in_meters_def)
  have ml: "?m = 0 \<or> 1 / 10 ^ 300 \<le> ?m"
  proof (cases "?s = 0")
    case True
    then show ?thesis by simp
  next
    case False
    then have "1 / 10 ^ 300 \<le> ?s" using sl by simp
    moreover have "?s \<le> ?m" using s0 by (simp add: mile_in_meters_def)
    ultimately show ?thesis by linarith
  qed
  have "?m < (201168 / 125) * (2 * 10 ^ 300)"
    using sB by (simp add: mile_in_meters_def)
  moreover have "(201168 / 125 :: rat) * (2 * 10 ^ 300) < 10 ^ 304" by simp
  ultimately have mB: "?m < 10 ^ 304" by linarith
  have "to_float ?m = Fl ?m"
    using ml m0 mB by (intro to_float_pos)
  then show "to_float ?m = Fl (?s * (201168 / 125))"
    by (simp add: mile_in_meters_def mult.commute)
qed

lemma numeral_facts:
  assumes "numeral s"
  shows "digits s" and "py_int s = Inr (int (dec s))" and "dec s < 10 ^ 300"
proof -
  show d: "digits s" using assms by (simp add: numeral_def)
  show "py_int s = Inr (int (dec s))"
    using assms by (intro py_int_digits) (simp_all add: numeral_def digits_def)
  show "dec s < 10 ^ 300"
    using assms by (intro dec_less_bound) (simp_all add: numeral_def digits_def)
qed

lemma sm_whole_two:
  assumes "numeral w" "r \<noteq> []" "\<not> py_isspace (hd r)"
  shows "sm_whole (w @ '' '' @ r) = Inr (int (dec w), r)"
proof -
  note w = numeral_facts[OF assms(1)]
  have "py_split1 (w @ '' '' @ r) = [w, r]"
    using assms(2,3) digits_no_space[OF w(1)] w(1)
    by (intro py_split1_two) (auto simp: digits_def)
  then show ?thesis
    using w(2) by (simp add: sm_whole_def ebind_def)
qed

lemma sm_whole_none: "CHR '' '' \<notin> set s \<Longrightarrow> sm_whole s = Inr (0, s)"
  by (simp add: sm_whole_def)

lemma sm_rest_fraction:
  assumes "a < 10 ^ 300" "numeral n" "numeral d" "dec d \<noteq> 0"
  shows "ebind (sm_rest (int a) (n @ ''/'' @ d)) miles_to_meters
           = Inr (VFloat (Fl ((of_nat a + of_nat (dec n) / of_nat (dec d)) * (201168 / 125))))"
proof -
  note n = numeral_facts[OF assms(2)]
  note d = numeral_facts[OF assms(3)]
  let ?q = "of_nat (dec n) / of_nat (dec d) :: rat"
  have d0: "0 < dec d" using assms(4) by simp
  note q = quotient_bounds[OF n(3) d0 d(3)]
  have s: "py_split_on1 (CHR ''/'') (n @ ''/'' @ d) = [n, d]"
    using digits_no_char(1)[OF n(1)] py_split_on1_two[of "CHR ''/''" n d] by simp
  have t: "true_div (int (dec n)) (int (dec d)) = Inr (Fl ?q)"
    using n(3) d0 d(3) by (rule true_div_nat)
  have f: "int_to_float (int a) = Inr (Fl (of_nat a))"
    using assms(1) by (rule int_to_float_nat)
  have "sm_rest (int a) (n @ ''/'' @ d) = Inr (VFloat (Fl (of_nat a + ?q)))"
    using s n(2) d(2) t f miles_sum(1)[OF assms(1) q]
    by (simp add: sm_rest_def ebind_def)
  then show ?thesis
    using miles_sum(2)[OF assms(1) q]
    by (simp add: ebind_def miles_to_meters_def)
qed

lemma sm_rest_integer:
  assumes "a < 10 ^ 300" "numeral k"
  shows "ebind (sm_rest (int a) k) miles_to_meters
           = Inr (VFloat (Fl ((of_nat a + of_nat (dec k)) * (201168 / 125))))"
proof -
  note k = numeral_facts[OF assms(2)]
  have r: "sm_rest (int a) k = Inr (VInt (int a + int (dec k)))"
    using k(2) digits_no_char(1)[OF k(1)] by (simp add: sm_rest_def ebind_def)
  let ?s = "of_nat a + of_nat (dec k) :: rat"
  have s0: "0 \<le> ?s" by simp
  have sB: "?s < 2 * 10 ^ 300"
    using of_nat_bound[OF assms(1)] of_nat_bound[OF k(3)] by linarith
  have "(2 :: rat) * 10 ^ 300 < float_overflow" by (simp add: float_overflow_def)
  then have "\<not> float_overflow \<le> \<bar>?s\<bar>" using s0 sB by linarith
  then have f: "int_to_float (int a + int (dec k)) = Inr (Fl ?s)"
    by (simp add: int_to_float_def)
  have "dec k = 0 \<or> 1 \<le> dec k" by linarith
  then have "(of_nat (dec k) :: rat) = 0 \<or> 1 / 10 ^ 300 \<le> (of_nat (dec k) :: rat)"
  proof
    assume "dec k = 0"
    then show ?thesis by simp
  next
    assume "1 \<le> dec k"
    then have "(1 :: rat) \<le> of_nat (dec k)" by simp
    moreover have "(1 / 10 ^ 300 :: rat) \<le> 1" by simp
    ultimately have "1 / 10 ^ 300 \<le> (of_nat (dec k) :: rat)" by linarith
    then show ?thesis ..
  qed
  then have "to_float (mile_in_meters * ?s) = Fl (?s * (201168 / 125))"
    using of_nat_bound[OF k(3)] by (intro miles_sum(2)[OF assms(1)]) simp_all
  then show ?thesis
    using r f by (simp add: ebind_def miles_to_meters_def)
qed

lemma decode_visibility_sm:
  assumes "\<forall>x\<in>set pre. py_isspace x" "body \<noteq> []" "\<not> py_isspace (hd body)"
    "\<not> py_isspace (last body)" "vis t = pre @ body @ ''SM''"
  shows "decode_visibility t =
     ebind (sm_whole body) (\<lambda>(v, vis_str). ebind (sm_rest v vis_str) miles_to_meters)"
proof -
  have e: "endswith (vis t) ''SM''"
    using endswith_append[of "pre @ body" "''SM''"] assms(5) by simp
  have "drop_last 2 (vis t) = pre @ body"
    using drop_last_SM[of "pre @ body"] assms(5) by simp
  then have "strip (drop_last 2 (vis t)) = body"
    using strip_group[OF assms(1-4)] by simp
  then show ?thesis
    using e by (simp add: decode_visibility_def)
qed

lemma visibility_whole_fraction:
  assumes "\<forall>x\<in>set pre. py_isspace x" "numeral w" "numeral n" "numeral d" "dec d \<noteq> 0"
    "vis t = pre @ w @ '' '' @ n @ ''/'' @ d @ ''SM''"
  shows "decode_visibility t =
     Inr (VFloat (Fl ((of_nat (dec w) + of_nat (dec n) / of_nat (dec d)) * (201168 / 125))))"
proof -
  let ?r = "n @ ''/'' @ d"
  let ?body = "w @ '' '' @ ?r"
  note w = numeral_facts[OF assms(2)]
  note n = numeral_facts[OF assms(3)]
  note d = numeral_facts[OF assms(4)]
  have ne: "n \<noteq> []" "w \<noteq> []" "d \<noteq> []" using w(1) n(1) d(1) by (auto simp: digits_def)
  have hd: "hd ?body = hd w" "last ?body = last d" "hd ?r = hd n"
    using ne by simp_all
  have 1: "decode_visibility t =
     ebind (sm_whole ?body) (\<lambda>(v, vis_str). ebind (sm_rest v vis_str) miles_to_meters)"
    using assms(1) ne digits_hd_last[OF w(1)] digits_hd_last[OF d(1)] assms(6)
    by (intro decode_visibility_sm[where pre = pre]) (simp_all only: hd append_assoc, simp_all)
  have 2: "sm_whole ?body = Inr (int (dec w), ?r)"
    using assms(2) ne digits_hd_last[OF n(1)] by (intro sm_whole_two) (simp_all add: hd(3))
  have 3: "ebind (sm_rest (int (dec w)) ?r) miles_to_meters
     = Inr (VFloat (Fl ((of_nat (dec w) + of_nat (dec n) / of_nat (dec d)) * (201168 / 125))))"
    using w(3) assms(3-5) by (rule sm_rest_fraction)
  have "ebind (sm_whole ?body) (\<lambda>(v, vis_str). ebind (sm_rest v vis_str) miles_to_meters)
     = ebind (sm_rest (int (dec w)) ?r) miles_to_meters"
    unfolding 2 by (simp add: ebind_def)
  then show ?thesis
    using 1 3 by simp
qed

lemma visibility_whole_integer:
  assumes "\<forall>x\<in>set pre. py_isspace x" "numeral w" "numeral k"
    "vis t = pre @ w @ '' '' @ k @ ''SM''"
  shows "decode_visibility t =
     Inr (VFloat (Fl ((of_nat (dec w) + of_nat (dec k)) * (201168 / 125))))"
proof -
  let ?body = "w @ '' '' @ k"
  note w = numeral_facts[OF assms(2)]
  note k = numeral_facts[OF assms(3)]
  have ne: "w \<noteq> []" "k \<noteq> []" using w(1) k(1) by (auto simp: digits_def)
  have hd: "hd ?body = hd w" "last ?body = last k"
    using ne by simp_all
  have 1: "decode_visibility t =
     ebind (sm_whole ?body) (\<lambda>(v, vis_str). ebind (sm_rest v vis_str) miles_to_meters)"
    using assms(1) ne digits_hd_last[OF w(1)] digits_hd_last[OF k(1)] assms(4)
    by (intro decode_visibility_sm[where pre = pre]) (simp_all only: hd append_assoc, simp_all)
  have 2: "sm_whole ?body = Inr (int (dec w), k)"
    using assms(2) ne digits_hd_last[OF k(1)] by (intro sm_whole_two) simp_all
  have 3: "ebind (sm_rest (int (dec w)) k) miles_to_meters
     = Inr (VFloat (Fl ((of_nat (dec w) + of_nat (dec k)) * (201168 / 125))))"
    using w(3) assms(3) by (rule sm_rest_integer)
  have "ebind (sm_whole ?body) (\<lambda>(v, vis_str). ebind (sm_rest v vis_str) miles_to_meters)
     = ebind (sm_rest (int (dec w)) k) miles_to_meters"
    unfolding 2 by (simp add: ebind_def)
  then show ?thesis
    using 1 3 by simp
qed

lemma visibility_fraction:
  assumes "\<forall>x\<in>set pre. py_isspace x" "numeral n" "numeral d" "dec d \<noteq> 0"
    "vis t = pre @ n @ ''/'' @ d @ ''SM''"
  shows "decode_visibility t =
     Inr (VFloat (Fl ((of_nat (dec n) / of_nat (dec d)) * (201168 / 125))))"
proof -
  let ?body = "n @ ''/'' @ d"
  note n = numeral_facts[OF assms(2)]
  note d = numeral_facts[OF assms(3)]
  have ne: "n \<noteq> []" "d \<noteq> []" using n(1) d(1) by (auto simp: digits_def)
  have hd: "hd ?body = hd n" "last ?body = last d"
    using ne by simp_all
  have 1: "decode_visibility t =
     ebind (sm_whole ?body) (\<lambda>(v, vis_str). ebind (sm_rest v vis_str) miles_to_meters)"
    using assms(1) ne digits_hd_last[OF n(1)] digits_hd_last[OF d(1)] assms(5)
    by (intro decode_visibility_sm[where pre = pre]) (simp_all only: hd append_assoc, simp_all)
  have "CHR '' '' \<notin> set ?body"
    using digits_no_char(2)[OF n(1)] digits_no_char(2)[OF d(1)] by simp
  then have 2: "sm_whole ?body = Inr (0, ?body)"
    by (rule sm_whole_none)
  have "(0 :: nat) < 10 ^ 300" by simp
  then have 3: "ebind (sm_rest (int 0) ?body) miles_to_meters
     = Inr (VFloat (Fl ((of_nat 0 + of_nat (dec n) / of_nat (dec d)) * (201168 / 125))))"
    using assms(2-4) by (rule sm_rest_fraction)
  have "ebind (sm_whole ?body) (\<lambda>(v, vis_str). ebind (sm_rest v vis_str) miles_to_meters)
     = ebind (sm_rest (int 0) ?body) miles_to_meters"
    unfolding 2 by (simp add: ebind_def)
  then show ?thesis
    using 1 3 by simp
qed

lemma visibility_integer:
  assumes "\<forall>x\<in>set pre. py_isspace x" "numeral k" "vis t = pre @ k @ ''SM''"
  shows "decode_visibility t = Inr (VFloat (Fl (of_nat (dec k) * (201168 / 125))))"
proof -
  note k = numeral_facts[OF assms(2)]
  have ne: "k \<noteq> []" using k(1) by (auto simp: digits_def)
  have 1: "decode_visibility t =
     ebind (sm_whole k) (\<lambda>(v, vis_str). ebind (sm_rest v vis_str) miles_to_meters)"
    using assms(1) ne digits_hd_last[OF k(1)] assms(3)
    by (intro decode_visibility_sm[where pre = pre]) simp_all
  have 2: "sm_whole k = Inr (0, k)"
    using digits_no_char(2)[OF k(1)] by (rule sm_whole_none)
  have "(0 :: nat) < 10 ^ 300" by simp
  then have 3: "ebind (sm_rest (int 0) k) miles_to_meters
     = Inr (VFloat (Fl ((of_nat 0 + of_nat (dec k)) * (201168 / 125))))"
    using assms(2) by (rule sm_rest_integer)
  have "ebind (sm_whole k) (\<lambda>(v, vis_str). ebind (sm_rest v vis_str) miles_to_meters)
     = ebind (sm_rest (int 0) k) miles_to_meters"
    unfolding 2 by (simp add: ebind_def)
  then show ?thesis
    using 1 3 by simp
qed

lemma visibility_meters:
  assumes "\<not> endswith (vis t) ''SM''" "\<not> contains (vis t) ''CAVOK''"
  shows "vis t = '''' \<or> strip (vis t) = ''////'' \<Longrightarrow> decode_visibility t = Inr nan"
    and "vis t \<noteq> '''' \<Longrightarrow> digits (slice 0 4 (strip (vis t)))
         \<Longrightarrow> decode_visibility t = Inr (VInt (int (dec (slice 0 4 (strip (vis t))))))"
proof -
  show "vis t = '''' \<or> strip (vis t) = ''////'' \<Longrightarrow> decode_visibility t = Inr nan"
    using assms by (auto simp: decode_visibility_def py_in_contains)
next
  assume a: "vis t \<noteq> ''''" "digits (slice 0 4 (strip (vis t)))"
  have "length (slice 0 4 (strip (vis t))) \<le> 4" by (simp add: slice_def)
  then have i: "py_int (slice 0 4 (strip (vis t))) = Inr (int (dec (slice 0 4 (strip (vis t)))))"
    using a(2) by (intro py_int_digits) (simp_all add: digits_def)
  have "strip (vis t) \<noteq> ''////''"
  proof
    assume s: "strip (vis t) = ''////''"
    have "py_int (slice 0 4 ''////'') = Inl ValueError"
      by (intro py_int_slash) (simp add: slice_def)
    then show False using i s by simp
  qed
  then show "decode_visibility t = Inr (VInt (int (dec (slice 0 4 (strip (vis t))))))"
    using assms a(1) i by (simp add: decode_visibility_def py_in_contains ebind_def)
qed

text \<open>
  Claim C2, amended. The decoded visibility follows the case priority of the claim.
  If the text ends with \<open>SM\<close> and, after optional leading white space, is made of
  decimal numerals of at most 300 digits each in one of the shapes "whole, space,
  numerator/denominator", "whole, space, integer", "numerator/denominator" or
  "integer", with a denominator that is not zero, the value is the sum of the whole
  part and the fraction or integer, in miles, converted to metres at 1609.344 m
  (\<open>201168 / 125\<close>) per mile. Otherwise, if the text does not end with \<open>SM\<close> and
  contains \<open>CAVOK\<close>, the value is the integer 10000. Otherwise, if the text is empty
  or, stripped, is \<open>////\<close>, the value is missing. Otherwise, if the first four
  characters of the stripped text (all of it when it is shorter) are decimal digits,
  the value is the integer they form. The group \<open>1 1/4SM\<close> gives 1.25 miles, which
  is 2011.68 m, and \<open>9999\<close> gives 9999.
\<close>

theorem visibility_decoding:
  "(\<forall>pre w n d. (\<forall>x\<in>set pre. py_isspace x) \<and> numeral w \<and> numeral n \<and> numeral d
        \<and> dec d \<noteq> 0 \<and> vis t = pre @ w @ '' '' @ n @ ''/'' @ d @ ''SM''
      \<longrightarrow> decode_visibility t =
            Inr (VFloat (Fl ((of_nat (dec w) + of_nat (dec n) / of_nat (dec d))
                             * (201168 / 125)))))
   \<and> (\<forall>pre w k. (\<forall>x\<in>set pre. py_isspace x) \<and> numeral w \<and> numeral k
        \<and> vis t = pre @ w @ '' '' @ k @ ''SM''
      \<longrightarrow> decode_visibility t =
            Inr (VFloat (Fl ((of_nat (dec w) + of_nat (dec k)) * (201168 / 125)))))
   \<and> (\<forall>pre n d. (\<forall>x\<in>set pre. py_isspace x) \<and> numeral n \<and> numeral d \<and> dec d \<noteq> 0
        \<and> vis t = pre @ n @ ''/'' @ d @ ''SM''
      \<longrightarrow> decode_visibility t =
            Inr (VFloat (Fl ((of_nat (dec n) / of_nat (dec d)) * (201168 / 125)))))
   \<and> (\<forall>pre k. (\<forall>x\<in>set pre. py_isspace x) \<and> numeral k \<and> vis t = pre @ k @ ''SM''
      \<longrightarrow> decode_visibility t = Inr (VFloat (Fl (of_nat (dec k) * (201168 / 125)))))
   \<and> (\<not> endswith (vis t) ''SM'' \<and> contains (vis t) ''CAVOK''
      \<longrightarrow> decode_visibility t = Inr (VInt 10000))
   \<and> (\<not> endswith (vis t) ''SM'' \<and> \<not> contains (vis t) ''CAVOK''
        \<and> (vis t = '''' \<or> strip (vis t) = ''////'')
      \<longrightarrow> decode_visibility t = Inr nan)
   \<and> (\<not> endswith (vis t) ''SM'' \<and> \<not> contains (vis t) ''CAVOK''
        \<and> vis t \<noteq> '''' \<and> digits (slice 0 4 (strip (vis t)))
      \<longrightarrow> decode_visibility t = Inr (VInt (int (dec (slice 0 4 (strip (vis t)))))))
   \<and> decode_visibility mile_vis_tree = Inr (VFloat (Fl (201168 / 100)))
   \<and> decode_visibility meter_vis_tree = Inr (VInt 9999)"
proof -
  have a: "\<forall>pre w n d. (\<forall>x\<in>set pre. py_isspace x) \<and> numeral w \<and> numeral n \<and> numeral d
        \<and> dec d \<noteq> 0 \<and> vis t = pre @ w @ '' '' @ n @ ''/'' @ d @ ''SM''
      \<longrightarrow> decode_visibility t =
            Inr (VFloat (Fl ((of_nat (dec w) + of_nat (dec n) / of_nat (dec d))
                             * (201168 / 125))))"
    using visibility_whole_fraction by blast
  have b: "\<forall>pre w k. (\<forall>x\<in>set pre. py_isspace x) \<and> numeral w \<and> numeral k
        \<and> vis t = pre @ w @ '' '' @ k @ ''SM''
      \<longrightarrow> decode_visibility t =
            Inr (VFloat (Fl ((of_nat (dec w) + of_nat (dec k)) * (201168 / 125))))"
    using visibility_whole_integer by blast
  have c: "\<forall>pre n d. (\<forall>x\<in>set pre. py_isspace x) \<and> numeral n \<and> numeral d \<and> dec d \<noteq> 0
        \<and> vis t = pre @ n @ ''/'' @ d @ ''SM''
      \<longrightarrow> decode_visibility t =
            Inr (VFloat (Fl ((of_nat (dec n) / of_nat (dec d)) * (201168 / 125))))"
    using visibility_fraction by blast
  have d: "\<forall>pre k. (\<forall>x\<in>set pre. py_isspace x) \<and> numeral k \<and> vis t = pre @ k @ ''SM''
      \<longrightarrow> decode_visibility t = Inr (VFloat (Fl (of_nat (dec k) * (201168 / 125))))"
    using visibility_integer by blast
  have e: "\<not> endswith (vis t) ''SM'' \<and> contains (vis t) ''CAVOK''
      \<longrightarrow> decode_visibility t = Inr (VInt 10000)"
    by (simp add: decode_visibility_def py_in_contains)
  have f: "\<not> endswith (vis t) ''SM'' \<and> \<not> contains (vis t) ''CAVOK''
        \<and> (vis t = '''' \<or> strip (vis t) = ''////'')
      \<longrightarrow> decode_visibility t = Inr nan"
    using visibility_meters(1) by blast
  have g: "\<not> endswith (vis t) ''SM'' \<and> \<not> contains (vis t) ''CAVOK''
        \<and> vis t \<noteq> '''' \<and> digits (slice 0 4 (strip (vis t)))
      \<longrightarrow> decode_visibility t = Inr (VInt (int (dec (slice 0 4 (strip (vis t))))))"
    using visibility_meters(2) by blast
  have h: "decode_visibility mile_vis_tree = Inr (VFloat (Fl (201168 / 100)))"
    by (simp add: mile_vis_tree_def sample_tree_def decode_defs py_defs)
  have i: "decode_visibility meter_vis_tree = Inr (VInt 9999)"
    by (simp add: meter_vis_tree_def sample_tree_def decode_defs py_defs)
  show ?thesis
    using a b c d e f g h i by blast
qed

theorem visibility_decoding_witness:
  "decode_visibility mile_vis_tree = Inr (VFloat (Fl ((1 + 1 / 4) * (201168 / 125))))
   \<and> decode_visibility meter_vis_tree = Inr (VInt 9999)"
proof -
  have 1: "(\<forall>x\<in>set ''''. py_isspace x) \<and> numeral ''1'' \<and> numeral ''1'' \<and> numeral ''4''
       \<and> dec ''4'' \<noteq> 0 \<and> vis mile_vis_tree = '''' @ ''1'' @ '' '' @ ''1'' @ ''/'' @ ''4'' @ ''SM''"
    by (simp add: numeral_def digits_def is_digit_def dec_def digit_val_def mile_vis_tree_def
                  sample_tree_def)
  have v: "dec ''1'' = 1" "dec ''4'' = 4" "dec ''9999'' = 9999"
    by (simp_all add: dec_def digit_val_def)
  have m: "decode_visibility mile_vis_tree =
      Inr (VFloat (Fl ((of_nat (dec ''1'') + of_nat (dec ''1'') / of_nat (dec ''4''))
                       * (201168 / 125))))"
    using visibility_decoding[of mile_vis_tree, THEN conjunct1, rule_format, OF 1] .
  have s: "strip (vis meter_vis_tree) = ''9999''"
    by (simp add: meter_vis_tree_def sample_tree_def strip_def py_isspace_def)
  have 2: "\<not> endswith (vis meter_vis_tree) ''SM'' \<and> \<not> contains (vis meter_vis_tree) ''CAVOK''
        \<and> vis meter_vis_tree \<noteq> '''' \<and> digits (slice 0 4 (strip (vis meter_vis_tree)))"
    unfolding s
    by (simp add: meter_vis_tree_def sample_tree_def endswith_def py_in_contains[symmetric]
                  startswith_def digits_def is_digit_def slice_def)
  have k: "decode_visibility meter_vis_tree
      = Inr (VInt (int (dec (slice 0 4 (strip (vis meter_vis_tree))))))"
    using visibility_decoding[of meter_vis_tree, THEN conjunct2, THEN conjunct2, THEN conjunct2,
        THEN conjunct2, THEN conjunct2, THEN conjunct2, THEN conjunct1, rule_format, OF 2] .
  have "slice 0 4 ''9999'' = ''9999''" by (simp add: slice_def)
  then show ?thesis
    using m k by (simp add: v s)
qed

text \<open>Claim C2 as written gives about 2012.6 m for \<open>1 1/4SM\<close>. The decoded value is
  2011.68 m, more than 0.9 m away from that figure.\<close>

theorem visibility_quarter_mile_counterexample:
  "\<exists>x. decode_visibility mile_vis_tree = Inr (VFloat (Fl x))
     \<and> x = 201168 / 100 \<and> 9 / 10 < \<bar>x - 20126 / 10\<bar>"
proof -
  have "decode_visibility mile_vis_tree = Inr (VFloat (Fl (201168 / 100)))"
    by (simp add: mile_vis_tree_def sample_tree_def decode_defs py_defs)
  moreover have "9 / 10 < \<bar>(201168 / 100 :: rat) - 20126 / 10\<bar>"
    by simp
  ultimately show ?thesis by blast
qed

section \<open>Wind\<close>

lemma decode_wind_cases:
  "decode_wind t =
     Inr (if CHR ''/'' \<in> set (wind t) \<or> wind t = ''KT'' \<or> wind t = '''' then (nan, nan)
          else if wind_dir t = ''VRB'' \<or> wind_dir t = ''VAR''
          then (case py_float (wind_spd t) of Inl e \<Rightarrow> (nan, nan) | Inr f \<Rightarrow> (nan, VFloat f))
          else (case py_int (wind_dir t) of
                  Inl e \<Rightarrow> (nan, nan)
                | Inr d \<Rightarrow> (case py_int (wind_spd t) of
                              Inl e \<Rightarrow> (nan, nan)
                            | Inr s \<Rightarrow> (VInt d, VInt s))))"
  by (auto simp: decode_wind_def catch_def ebind_def py_in_char
           dest: py_float_error py_int_error split: sum.splits)

lemma contains_char: "contains s [c] \<longleftrightarrow> c \<in> set s"
  using py_in_contains[of "[c]" s] py_in_char[of c s] by simp

lemma decode_wind_rule: "decode_wind t = Inr (wind_rule t)"
  by (simp add: decode_wind_cases wind_rule_def contains_char)

lemma decode_wind_filler:
  assumes "contains (wind t) ''/'' \<or> wind t = ''KT'' \<or> wind t = ''''"
  shows "decode_wind t = Inr (nan, nan)"
  using assms by (auto simp: decode_wind_rule wind_rule_def)

lemma decode_wind_tokens_filler:
  assumes "CHR ''/'' \<in> set (wind_dir t)" "CHR ''/'' \<in> set (wind_spd t)"
  shows "decode_wind t = Inr (nan, nan)"
proof -
  have "wind_dir t \<noteq> ''VRB''" "wind_dir t \<noteq> ''VAR''" using assms(1) by auto
  then show ?thesis
    using assms(1) by (simp add: decode_wind_cases py_int_slash)
qed

lemma decode_wind_variable:
  assumes "\<not> contains (wind t) ''/''" "wind t \<noteq> ''KT''" "wind t \<noteq> ''''"
    "wind_dir t = ''VRB'' \<or> wind_dir t = ''VAR''" "numeral (wind_spd t)"
  shows "decode_wind t = Inr (nan, VFloat (Fl (of_nat (dec (wind_spd t)))))"
proof -
  have "py_float (wind_spd t) = Inr (Fl (of_nat (dec (wind_spd t))))"
    using assms(5) by (intro py_float_digits) (simp_all add: numeral_def digits_def)
  then show ?thesis
    using assms(1-4) by (simp add: decode_wind_rule wind_rule_def)
qed

lemma decode_wind_integers:
  assumes "\<not> contains (wind t) ''/''" "wind t \<noteq> ''KT''" "wind t \<noteq> ''''"
    "numeral (wind_dir t)" "numeral (wind_spd t)"
  shows "decode_wind t = Inr (VInt (int (dec (wind_dir t))), VInt (int (dec (wind_spd t))))"
proof -
  have "is_digit (hd (wind_dir t))"
    using assms(4) by (cases "wind_dir t") (simp_all add: numeral_def digits_def)
  moreover have "\<not> is_digit (CHR ''V'')" by (simp add: is_digit_def)
  ultimately have "wind_dir t \<noteq> ''VRB''" "wind_dir t \<noteq> ''VAR''" by auto
  then show ?thesis
    using assms(1-3) numeral_facts(2)[OF assms(4)] numeral_facts(2)[OF assms(5)]
    by (simp add: decode_wind_rule wind_rule_def)
qed

text \<open>
  Claim C3, amended. The wind block returns what \<open>wind_rule\<close> says. If the text of the
  wind group contains the filler \<open>/\<close> anywhere, or the group is \<open>KT\<close> or empty, the
  direction and the speed are both missing (so they are whenever the direction and the
  speed token both contain the filler). Otherwise, if the direction token is \<open>VRB\<close> or
  \<open>VAR\<close>, the direction is missing and the speed is parsed as a float. Otherwise both
  are parsed as integers. A conversion error in either of the last two cases makes
  both missing. For tokens that are decimal numerals of at most 300 digits the values
  are spelled out. \<open>VRB05KT\<close> gives a missing direction and speed 5, \<open>/////KT\<close> two
  missing values, \<open>28015KT\<close> direction 280 and speed 15.
\<close>

theorem wind_decoding:
  "decode_wind t = Inr (wind_rule t)
   \<and> (contains (wind t) ''/'' \<or> wind t = ''KT'' \<or> wind t = ''''
        \<longrightarrow> decode_wind t = Inr (nan, nan))
   \<and> (CHR ''/'' \<in> set (wind_dir t) \<and> CHR ''/'' \<in> set (wind_spd t)
        \<longrightarrow> decode_wind t = Inr (nan, nan))
   \<and> (\<not> contains (wind t) ''/'' \<and> wind t \<noteq> ''KT'' \<and> wind t \<noteq> ''''
        \<and> (wind_dir t = ''VRB'' \<or> wind_dir t = ''VAR'') \<and> numeral (wind_spd t)
        \<longrightarrow> decode_wind t = Inr (nan, VFloat (Fl (of_nat (dec (wind_spd t))))))
   \<and> (\<not> contains (wind t) ''/'' \<and> wind t \<noteq> ''KT'' \<and> wind t \<noteq> ''''
        \<and> numeral (wind_dir t) \<and> numeral (wind_spd t)
        \<longrightarrow> decode_wind t
              = Inr (VInt (int (dec (wind_dir t))), VInt (int (dec (wind_spd t)))))
   \<and> decode_wind variable_wind_tree = Inr (nan, VFloat (Fl 5))
   \<and> decode_wind filler_wind_tree = Inr (nan, nan)
   \<and> decode_wind sample_tree = Inr (VInt 280, VInt 15)"
proof -
  have a: "decode_wind variable_wind_tree = Inr (nan, VFloat (Fl 5))"
    by (simp add: variable_wind_tree_def sample_tree_def decode_defs py_defs)
  have b: "decode_wind filler_wind_tree = Inr (nan, nan)"
    by (simp add: filler_wind_tree_def sample_tree_def decode_defs py_defs)
  have c: "decode_wind sample_tree = Inr (VInt 280, VInt 15)"
    by (simp add: sample_tree_def decode_defs py_defs)
  show ?thesis
    using a b c decode_wind_rule decode_wind_filler decode_wind_tokens_filler
      decode_wind_variable decode_wind_integers
    by (intro conjI impI) auto
qed

theorem wind_decoding_witness:
  "decode_wind variable_wind_tree = Inr (nan, VFloat (Fl 5))
   \<and> decode_wind filler_wind_tree = Inr (nan, nan)
   \<and> decode_wind sample_tree = Inr (VInt 280, VInt 15)"
proof -
  have s: "wind filler_wind_tree = '' ////'' @ ''/'' @ ''KT''"
    by (simp add: filler_wind_tree_def sample_tree_def)
  have 1: "contains (wind filler_wind_tree) ''/'' \<or> wind filler_wind_tree = ''KT''
             \<or> wind filler_wind_tree = ''''"
    unfolding contains_def using s by blast
  have v: "dec ''05'' = 5" "dec ''280'' = 280" "dec ''15'' = 15"
    by (simp_all add: dec_def digit_val_def)
  have 2: "\<not> contains (wind variable_wind_tree) ''/'' \<and> wind variable_wind_tree \<noteq> ''KT''
        \<and> wind variable_wind_tree \<noteq> ''''
        \<and> (wind_dir variable_wind_tree = ''VRB'' \<or> wind_dir variable_wind_tree = ''VAR'')
        \<and> numeral (wind_spd variable_wind_tree)"
    by (simp add: variable_wind_tree_def sample_tree_def contains_char numeral_def digits_def
                  is_digit_def)
  have 3: "\<not> contains (wind sample_tree) ''/'' \<and> wind sample_tree \<noteq> ''KT''
        \<and> wind sample_tree \<noteq> '''' \<and> numeral (wind_dir sample_tree)
        \<and> numeral (wind_spd sample_tree)"
    by (simp add: sample_tree_def contains_char numeral_def digits_def is_digit_def)
  have f: "decode_wind filler_wind_tree = Inr (nan, nan)"
    using wind_decoding[of filler_wind_tree, THEN conjunct2, THEN conjunct1, rule_format, OF 1] .
  have w: "decode_wind variable_wind_tree
      = Inr (nan, VFloat (Fl (of_nat (dec (wind_spd variable_wind_tree)))))"
    using wind_decoding[of variable_wind_tree, THEN conjunct2, THEN conjunct2, THEN conjunct2,
        THEN conjunct1, rule_format, OF 2] .
  have i: "decode_wind sample_tree
      = Inr (VInt (int (dec (wind_dir sample_tree))), VInt (int (dec (wind_spd sample_tree))))"
    using wind_decoding[of sample_tree, THEN conjunct2, THEN conjunct2, THEN conjunct2,
        THEN conjunct2, THEN conjunct1, rule_format, OF 3] .
  have "wind_spd variable_wind_tree = ''05''" "wind_dir sample_tree = ''280''"
    "wind_spd sample_tree = ''15''"
    by (simp_all add: variable_wind_tree_def sample_tree_def)
  then show ?thesis
    using f w i by (simp add: v)
qed

text \<open>Claim C3 as written tests the filler on the direction and the speed token. For
  the group \<open>28015G//KT\<close>, whose filler is in the gust, neither token has a filler and
  both are numerals: the claim gives direction 280 and speed 15, the decoder two missing
  values.\<close>

theorem wind_gust_filler_counterexample:
  "decode_wind gust_filler_tree = Inr (nan, nan)
   \<and> wind_spec gust_filler_tree = (VInt 280, VInt 15)
   \<and> wind_dir gust_filler_tree = ''280'' \<and> wind_spd gust_filler_tree = ''15''"
proof -
  have "decode_wind gust_filler_tree = Inr (nan, nan)"
    by (simp add: gust_filler_tree_def sample_tree_def decode_defs py_defs)
  moreover have "wind_spec gust_filler_tree = (VInt 280, VInt 15)"
    by (simp add: wind_spec_def gust_filler_tree_def sample_tree_def py_defs)
  ultimately show ?thesis
    by (simp add: gust_filler_tree_def sample_tree_def)
qed

text \<open>
  Claim C8. For every report that is decoded, a wind direction that is not missing comes
  with a wind speed that is not missing.
\<close>

theorem wind_direction_has_speed:
  assumes "parse_metar parse wx_code_map metar_text year month station_metadata = Inr m"
    and "\<not> missing (wind_direction m)"
  shows "\<not> missing (wind_speed m)"
proof -
  obtain t where "decode station_metadata wx_code_map t year month = Inr m"
    using parse_metar_InrD[OF assms(1)] by blast
  then have "decode_wind t = Inr (wind_direction m, wind_speed m)"
    by (rule decode_InrD(1))
  then show ?thesis
    using assms(2)
    by (auto simp: decode_wind_def catch_def ebind_def missing_def
             split: if_splits sum.splits)
qed

theorem wind_direction_has_speed_witness:
  "parse_metar sample_parse sample_wx_code_map sample_report 2019 2 sample_stations
     = Inr sample_metar
   \<and> \<not> missing (wind_direction sample_metar) \<and> \<not> missing (wind_speed sample_metar)"
proof -
  have d: "\<not> missing (wind_direction sample_metar)"
    by (simp add: sample_metar_def missing_def)
  show ?thesis
    using wind_direction_has_speed[OF sample_parse_metar d] sample_parse_metar d by simp
qed

section \<open>Altimeter\<close>

lemma decode_altim_digits:
  assumes "altim t \<noteq> ''''" "digits (slice 1 5 (strip (altim t)))"
  shows "1100 < dec (slice 1 5 (strip (altim t))) \<Longrightarrow>
           decode_altim t = Inr (VFloat (Fl (of_nat (dec (slice 1 5 (strip (altim t)))) / 100)))"
    and "dec (slice 1 5 (strip (altim t))) \<le> 1100 \<Longrightarrow>
           decode_altim t
             = Inr (VFloat (Fl (of_nat (dec (slice 1 5 (strip (altim t)))) * 100
                                / (3386388640341 / 1000000000))))"
proof -
  let ?s = "slice 1 5 (strip (altim t))"
  have len: "length ?s \<le> 4" by (simp add: slice_def)
  have ne: "?s \<noteq> []" and dg: "\<forall>x\<in>set ?s. is_digit x"
    using assms(2) by (simp_all add: digits_def)
  have f: "py_float ?s = Inr (Fl (of_nat (dec ?s)))"
    using ne dg len by (intro py_float_digits) simp_all
  have i: "py_int ?s = Inr (int (dec ?s))"
    using ne dg len by (intro py_int_digits) simp_all
  have g: "fl_gt (Fl (of_nat (dec ?s))) 1100 \<longleftrightarrow> 1100 < dec ?s"
  proof -
    have "(1100::rat) = of_nat 1100" by simp
    then show ?thesis by (simp only: fl_gt.simps of_nat_less_iff)
  qed
  have d: "decode_altim t =
      (if 1100 < dec ?s then Inr (VFloat (to_float (1 / 100 * of_nat (dec ?s))))
       else Inr (VFloat (Fl (hPa_to_inHg (int (dec ?s))))))"
    using assms(1) unfolding decode_altim_def f i
    by (simp add: g ebind_def)
  {
    assume b: "1100 < dec ?s"
    have "dec ?s < 10 ^ 4"
      using dg len by (rule dec_less_bound)
    then have "(of_nat (dec ?s) :: rat) < of_nat (10 ^ 4)"
      by (simp only: of_nat_less_iff)
    then have u: "(of_nat (dec ?s) :: rat) < 10000" by simp
    have "(of_nat 1100 :: rat) < of_nat (dec ?s)"
      using b by (simp only: of_nat_less_iff)
    then have l: "(1100 :: rat) < of_nat (dec ?s)" by simp
    let ?r = "1 / 100 * of_nat (dec ?s) :: rat"
    have r: "11 < ?r" "?r < 100" using l u by simp_all
    have "(1 / 10 ^ 300 :: rat) \<le> 11" by simp
    then have 1: "?r = 0 \<or> 1 / 10 ^ 300 \<le> ?r" using r(1) by linarith
    have "(100 :: rat) < 10 ^ 304" by simp
    then have 2: "?r < 10 ^ 304" using r(2) by linarith
    have 3: "0 \<le> ?r" using r(1) by linarith
    have "to_float ?r = Fl ?r"
      using 1 3 2 by (rule to_float_pos)
    then show "decode_altim t = Inr (VFloat (Fl (of_nat (dec ?s) / 100)))"
      using d b by simp
  }
  {
    assume b: "dec ?s \<le> 1100"
    have "(254 / 10000 :: rat) * (135951 / 10) * (980665 / 100000)
            = 3386388640341 / 1000000000"
      by simp
    then have "hPa_to_inHg (int (dec ?s))
        = of_nat (dec ?s) * 100 / (3386388640341 / 1000000000)"
      by (simp only: hPa_to_inHg_def inHg_in_pascal_def of_int_of_nat_eq)
    then show "decode_altim t
        = Inr (VFloat (Fl (of_nat (dec ?s) * 100 / (3386388640341 / 1000000000))))"
      using d b by simp
  }
qed

text \<open>
  Claim C4. An empty altimeter group gives a missing value. Otherwise the number formed
  by the characters at positions 1 to 5 of the stripped group decides (the characters
  are decimal digits here): above 1100 it is hundredths of an inch of mercury and the
  result is that number divided by 100; otherwise it is a whole number of hectopascals
  and the result is the pressure in inches of mercury, that is the number \<open>x\<close> with
  \<open>x * 3386.388640341 Pa = n * 100 Pa\<close>. \<open>A2992\<close> gives 29.92 and \<open>Q1013\<close> gives
  a value within 0.01 of 29.92.
\<close>

theorem altimeter_decoding:
  "(altim t = '''' \<longrightarrow> decode_altim t = Inr nan)
   \<and> (altim t \<noteq> '''' \<and> digits (slice 1 5 (strip (altim t)))
        \<and> 1100 < dec (slice 1 5 (strip (altim t)))
      \<longrightarrow> decode_altim t
            = Inr (VFloat (Fl (of_nat (dec (slice 1 5 (strip (altim t)))) / 100))))
   \<and> (altim t \<noteq> '''' \<and> digits (slice 1 5 (strip (altim t)))
        \<and> dec (slice 1 5 (strip (altim t))) \<le> 1100
      \<longrightarrow> (\<exists>x. decode_altim t = Inr (VFloat (Fl x))
               \<and> x * (3386388640341 / 1000000000)
                   = of_nat (dec (slice 1 5 (strip (altim t)))) * 100))
   \<and> decode_altim sample_tree = Inr (VFloat (Fl (2992 / 100)))
   \<and> (\<exists>x. decode_altim hpa_altim_tree = Inr (VFloat (Fl x)) \<and> \<bar>x - 2992 / 100\<bar> < 1 / 100)"
proof -
  have a: "altim t = '''' \<longrightarrow> decode_altim t = Inr nan"
    by (simp add: decode_altim_def)
  have b: "altim t \<noteq> '''' \<and> digits (slice 1 5 (strip (altim t)))
        \<and> 1100 < dec (slice 1 5 (strip (altim t)))
      \<longrightarrow> decode_altim t
            = Inr (VFloat (Fl (of_nat (dec (slice 1 5 (strip (altim t)))) / 100)))"
    using decode_altim_digits(1) by blast
  have c: "altim t \<noteq> '''' \<and> digits (slice 1 5 (strip (altim t)))
        \<and> dec (slice 1 5 (strip (altim t))) \<le> 1100
      \<longrightarrow> (\<exists>x. decode_altim t = Inr (VFloat (Fl x))
               \<and> x * (3386388640341 / 1000000000)
                   = of_nat (dec (slice 1 5 (strip (altim t)))) * 100)"
  proof
    assume h: "altim t \<noteq> '''' \<and> digits (slice 1 5 (strip (altim t)))
        \<and> dec (slice 1 5 (strip (altim t))) \<le> 1100"
    let ?n = "of_nat (dec (slice 1 5 (strip (altim t)))) :: rat"
    have "decode_altim t = Inr (VFloat (Fl (?n * 100 / (3386388640341 / 1000000000))))"
      using h decode_altim_digits(2) by blast
    moreover have "?n * 100 / (3386388640341 / 1000000000) * (3386388640341 / 1000000000)
        = ?n * 100"
      by simp
    ultimately show "\<exists>x. decode_altim t = Inr (VFloat (Fl x))
               \<and> x * (3386388640341 / 1000000000) = ?n * 100"
      by blast
  qed
  have e: "decode_altim sample_tree = Inr (VFloat (Fl (2992 / 100)))"
    by (simp add: sample_tree_def decode_defs py_defs)
  have "decode_altim hpa_altim_tree = Inr (VFloat (Fl (101300000000000 / 3386388640341)))"
    by (simp add: hpa_altim_tree_def sample_tree_def decode_defs py_defs)
  moreover have "\<bar>(101300000000000 / 3386388640341 :: rat) - 2992 / 100\<bar> < 1 / 100"
    by simp
  ultimately have f: "\<exists>x. decode_altim hpa_altim_tree = Inr (VFloat (Fl x))
      \<and> \<bar>x - 2992 / 100\<bar> < 1 / 100"
    by blast
  show ?thesis
    using a b c e f by blast
qed

theorem altimeter_decoding_witness:
  "decode_altim sample_tree = Inr (VFloat (Fl (2992 / 100)))
   \<and> (\<exists>x. decode_altim hpa_altim_tree = Inr (VFloat (Fl x))
          \<and> x * (3386388640341 / 1000000000) = 101300)"
proof -
  have s: "slice 1 5 (strip (altim sample_tree)) = ''2992''"
    "slice 1 5 (strip (altim hpa_altim_tree)) = ''1013''"
    by (simp_all add: sample_tree_def hpa_altim_tree_def strip_def py_isspace_def slice_def)
  have v: "dec ''2992'' = 2992" "dec ''1013'' = 1013"
    by (simp_all add: dec_def digit_val_def)
  have 1: "altim sample_tree \<noteq> '''' \<and> digits (slice 1 5 (strip (altim sample_tree)))
        \<and> 1100 < dec (slice 1 5 (strip (altim sample_tree)))"
    unfolding s v by (simp add: sample_tree_def digits_def is_digit_def)
  have 2: "altim hpa_altim_tree \<noteq> '''' \<and> digits (slice 1 5 (strip (altim hpa_altim_tree)))
        \<and> dec (slice 1 5 (strip (altim hpa_altim_tree))) \<le> 1100"
    unfolding s v by (simp add: hpa_altim_tree_def sample_tree_def digits_def is_digit_def)
  have d1: "decode_altim sample_tree
      = Inr (VFloat (Fl (of_nat (dec (slice 1 5 (strip (altim sample_tree)))) / 100)))"
    using altimeter_decoding[of sample_tree, THEN conjunct2, THEN conjunct1, rule_format, OF 1] .
  have d2: "\<exists>x. decode_altim hpa_altim_tree = Inr (VFloat (Fl x))
               \<and> x * (3386388640341 / 1000000000)
                   = of_nat (dec (slice 1 5 (strip (altim hpa_altim_tree)))) * 100"
    using altimeter_decoding[of hpa_altim_tree, THEN conjunct2, THEN conjunct2, THEN conjunct1,
        rule_format, OF 2] .
  show ?thesis
    using d1 d2 unfolding s v by simp
qed

section \<open>Cloud cover\<close>

text \<open>
  Claim C5. For every report, \<open>cloud_coverage\<close> (the field \<open>cloudcover\<close>) is derived
  from the raw sky-cover text of the tokenizer's tree, not from the decoded layers, with
  the keyword precedence of \<open>coverage_spec\<close>: overcast or vertical visibility gives 8,
  else broken 6, else scattered 4, else few 2, else a clear or no-cloud code, or CAVOK in
  the visibility text, 0, else 10. In particular a text with both FEW and OVC gives 8.
\<close>

theorem cloudcover_precedence:
  assumes "parse_metar parse wx_code_map metar_text year month station_metadata = Inr m"
  shows "\<exists>t. parse metar_text = Some t
           \<and> cloudcover m = coverage_spec (skyc t) (vis t)
           \<and> (contains (skyc t) ''FEW'' \<and> contains (skyc t) ''OVC'' \<longrightarrow> cloudcover m = 8)"
proof -
  obtain t where t: "parse metar_text = Some t"
    and d: "decode station_metadata wx_code_map t year month = Inr m"
    using parse_metar_InrD[OF assms] by blast
  have c: "cloudcover m = decode_cloudcover t"
    using d by (rule decode_InrD(3))
  have "decode_cloudcover t = coverage_spec (skyc t) (vis t)"
    by (simp add: decode_cloudcover_def coverage_spec_def py_in_contains)
  moreover have "contains (skyc t) ''OVC'' \<longrightarrow> coverage_spec (skyc t) (vis t) = 8"
    by (simp add: coverage_spec_def)
  ultimately show ?thesis
    using t c by auto
qed

theorem cloudcover_precedence_witness:
  "\<exists>t. sample_parse sample_report = Some t
      \<and> skyc t = '' FEW010 OVC020''
      \<and> contains (skyc t) ''FEW'' \<and> contains (skyc t) ''OVC''
      \<and> cloudcover sample_metar = 8"
proof -
  obtain t where t: "sample_parse sample_report = Some t"
    and p: "contains (skyc t) ''FEW'' \<and> contains (skyc t) ''OVC'' \<longrightarrow> cloudcover sample_metar = 8"
    using cloudcover_precedence[OF sample_parse_metar] by blast
  have s: "skyc t = '' FEW010 OVC020''"
    using t by (auto simp: sample_parse_def sample_tree_def)
  have "py_in ''FEW'' '' FEW010 OVC020''" "py_in ''OVC'' '' FEW010 OVC020''"
    by (simp_all add: startswith_def)
  then have "contains (skyc t) ''FEW''" "contains (skyc t) ''OVC''"
    by (simp_all add: s py_in_contains)
  then show ?thesis
    using t s p by blast
qed

text \<open>
  Claim C9. For every report that is decoded, \<open>cloud_coverage\<close> is one of 0, 2, 4, 6, 8
  and 10; no odd number of oktas is produced.
\<close>

theorem cloudcover_values:
  assumes "parse_metar parse wx_code_map metar_text year month station_metadata = Inr m"
  shows "cloudcover m \<in> {0, 2, 4, 6, 8, 10}"
proof -
  obtain t where "decode station_metadata wx_code_map t year month = Inr m"
    using parse_metar_InrD[OF assms] by blast
  then have "cloudcover m = decode_cloudcover t"
    by (rule decode_InrD(3))
  then show ?thesis
    by (simp add: decode_cloudcover_def)
qed

theorem cloudcover_values_witness:
  "parse_metar sample_parse sample_wx_code_map sample_report 2019 2 sample_stations
     = Inr sample_metar
   \<and> cloudcover sample_metar \<in> {0, 2, 4, 6, 8, 10}"
  using cloudcover_values[OF sample_parse_metar] sample_parse_metar by simp

section \<open>Temperature and dewpoint\<close>

lemma decode_temp_total: "decode_temp s =
   Inr (case py_float (take_last 2 s) of Inl e \<Rightarrow> nan
        | Inr f \<Rightarrow> VFloat (if CHR ''M'' \<in> set s then fl_neg f else f))"
  by (auto simp: decode_temp_def catch_def ebind_def py_in_char
           dest: py_float_error split: sum.splits)

lemma decode_temp_spec: "decode_temp s = Inr (temp_spec s)"
  by (simp add: decode_temp_total temp_spec_def)

lemma temp_spec_digits:
  assumes "is_digit d1" "is_digit d2"
  shows "temp_spec (p @ [d1, d2]) =
     VFloat (Fl (if CHR ''M'' \<in> set p then - of_nat (10 * digit_val d1 + digit_val d2)
                 else of_nat (10 * digit_val d1 + digit_val d2)))"
proof -
  have "take_last 2 (p @ [d1, d2]) = [d1, d2]"
    by (simp add: take_last_def)
  moreover have "py_float [d1, d2] = Inr (Fl (of_nat (dec [d1, d2])))"
    using assms by (intro py_float_digits) auto
  moreover have "CHR ''M'' \<in> set (p @ [d1, d2]) \<longleftrightarrow> CHR ''M'' \<in> set p"
    using digit_chars(8)[OF assms(1)] digit_chars(8)[OF assms(2)] by auto
  ultimately show ?thesis
    by (simp add: temp_spec_def dec_two del: of_nat_add of_nat_mult)
qed

text \<open>
  Claim C6. An empty temperature group, or the all-filler group \<open>MM/MM\<close>, gives two
  missing values. Otherwise each sub-token is decoded on its own as \<open>temp_spec\<close> says:
  the float formed by its last two characters, negated when the letter \<open>M\<close> occurs in
  the sub-token (\<open>M05\<close> gives -5.0, \<open>05\<close> gives 5.0); a conversion error on one
  sub-token makes that one missing and leaves the other as decoded.
\<close>

theorem temp_dewp_decoding:
  "decode_temp_dewp t =
      Inr (if temp_dewp t = '''' \<or> temp_dewp t = '' MM/MM'' then (nan, nan)
           else (temp_spec (temp t), temp_spec (dewp t)))
   \<and> (\<forall>p d1 d2. is_digit d1 \<and> is_digit d2 \<longrightarrow>
         temp_spec (p @ [d1, d2]) =
           VFloat (Fl (if CHR ''M'' \<in> set p then - of_nat (10 * digit_val d1 + digit_val d2)
                       else of_nat (10 * digit_val d1 + digit_val d2))))
   \<and> temp_spec ''M05'' = VFloat (Fl (- 5)) \<and> temp_spec ''05'' = VFloat (Fl 5)
   \<and> (\<forall>e f. temp_dewp t \<noteq> '''' \<and> temp_dewp t \<noteq> '' MM/MM''
            \<and> py_float (take_last 2 (temp t)) = Inl e
            \<and> py_float (take_last 2 (dewp t)) = Inr f \<longrightarrow>
         decode_temp_dewp t =
           Inr (nan, VFloat (if CHR ''M'' \<in> set (dewp t) then fl_neg f else f)))
   \<and> (\<forall>e f. temp_dewp t \<noteq> '''' \<and> temp_dewp t \<noteq> '' MM/MM''
            \<and> py_float (take_last 2 (temp t)) = Inr f
            \<and> py_float (take_last 2 (dewp t)) = Inl e \<longrightarrow>
         decode_temp_dewp t =
           Inr (VFloat (if CHR ''M'' \<in> set (temp t) then fl_neg f else f), nan))"
proof -
  have a: "decode_temp_dewp t =
      Inr (if temp_dewp t = '''' \<or> temp_dewp t = '' MM/MM'' then (nan, nan)
           else (temp_spec (temp t), temp_spec (dewp t)))"
    by (simp add: decode_temp_dewp_def decode_temp_spec ebind_def)
  have b: "temp_spec ''M05'' = VFloat (Fl (- 5))" "temp_spec ''05'' = VFloat (Fl 5)"
    by (simp_all add: temp_spec_def py_defs)
  show ?thesis
    using a b temp_spec_digits by (simp add: temp_spec_def)
qed

theorem temp_dewp_decoding_witness:
  "temp_spec (''M'' @ [CHR ''0'', CHR ''5'']) = VFloat (Fl (- 5))
   \<and> decode_temp_dewp garbled_temp_tree = Inr (nan, VFloat (Fl 10))"
proof -
  have 1: "temp_spec (''M'' @ [CHR ''0'', CHR ''5'']) = VFloat (Fl (- 5))"
    using temp_dewp_decoding[of garbled_temp_tree, THEN conjunct2, THEN conjunct1,
        rule_format, of "CHR ''0''" "CHR ''5''" "''M''"]
    by (simp add: is_digit_def digit_val_def)
  have h: "temp_dewp garbled_temp_tree \<noteq> '''' \<and> temp_dewp garbled_temp_tree \<noteq> '' MM/MM''
      \<and> py_float (take_last 2 (temp garbled_temp_tree)) = Inl ValueError
      \<and> py_float (take_last 2 (dewp garbled_temp_tree)) = Inr (Fl 10)"
    by (simp add: garbled_temp_tree_def sample_tree_def py_defs)
  have m: "CHR ''M'' \<notin> set (dewp garbled_temp_tree)"
    by (simp add: garbled_temp_tree_def sample_tree_def)
  have 2: "decode_temp_dewp garbled_temp_tree = Inr (nan, VFloat (Fl 10))"
    using temp_dewp_decoding[of garbled_temp_tree, THEN conjunct2, THEN conjunct2,
        THEN conjunct2, THEN conjunct2, THEN conjunct1, rule_format, OF h] m
    by simp
  show ?thesis using 1 2 by simp
qed

section \<open>Present weather\<close>

lemma wx_len: "3 \<le> length (map VStr toks @ drop (length toks) [nan, nan, nan])"
  by simp

lemma wx_symbol_eq:
  assumes "i < length wx"
  shows "wx_symbol m wx i =
    Inr (case wx ! i of VStr s \<Rightarrow> (case m s of None \<Rightarrow> 0 | Some c \<Rightarrow> c) | _ \<Rightarrow> 0)"
  using assms
  by (auto simp: wx_symbol_def catch_def ebind_def py_index_def wx_lookup_def
           split: val.splits option.splits)

lemma decode_curwx_symbols:
  assumes "decode_curwx m t = Inr ((w1, w2, w3), (s1, s2, s3))"
  shows "s1 = (case w1 of VStr s \<Rightarrow> (case m s of None \<Rightarrow> 0 | Some c \<Rightarrow> c) | _ \<Rightarrow> 0)
       \<and> s2 = (case w2 of VStr s \<Rightarrow> (case m s of None \<Rightarrow> 0 | Some c \<Rightarrow> c) | _ \<Rightarrow> 0)
       \<and> s3 = (case w3 of VStr s \<Rightarrow> (case m s of None \<Rightarrow> 0 | Some c \<Rightarrow> c) | _ \<Rightarrow> 0)"
proof (cases "curwx t = '''' \<or> strip (curwx t) = ''//''")
  case True
  then show ?thesis using assms by (auto simp: decode_curwx_def)
next
  case False
  define wx where "wx = map VStr (py_split (strip (curwx t)))
                        @ drop (length (py_split (strip (curwx t)))) [nan, nan, nan]"
  have len: "0 < length wx" "1 < length wx" "2 < length wx"
    using wx_len[of "py_split (strip (curwx t))"] by (simp_all add: wx_def)
  have "decode_curwx m t =
      ebind (py_index wx 0) (\<lambda>current_wx1.
      ebind (py_index wx 1) (\<lambda>current_wx2.
      ebind (py_index wx 2) (\<lambda>current_wx3.
      ebind (wx_symbol m wx 0) (\<lambda>current_wx1_symbol.
      ebind (wx_symbol m wx 1) (\<lambda>current_wx2_symbol.
      ebind (wx_symbol m wx 2) (\<lambda>current_wx3_symbol.
      Inr ((current_wx1, current_wx2, current_wx3),
           (current_wx1_symbol, current_wx2_symbol, current_wx3_symbol))))))))"
    using False by (simp add: decode_curwx_def wx_def Let_def)
  then show ?thesis
    using assms len
    by (simp add: wx_symbol_eq py_index_def ebind_def)
qed

text \<open>
  Claim C10. For every report that is decoded and each of the three weather slots, the
  symbol is a non-negative integer, given that the codes of the lookup table are
  non-negative; it is 0 whenever the weather string of the slot is missing, and 0 when
  the string is not a key of the lookup table.
\<close>

theorem wx_symbols:
  assumes "parse_metar parse wx_code_map metar_text year month station_metadata = Inr m"
    and "\<forall>k c. wx_code_map k = Some c \<longrightarrow> 0 \<le> c"
  shows "0 \<le> current_wx1_symbol m \<and> 0 \<le> current_wx2_symbol m \<and> 0 \<le> current_wx3_symbol m
       \<and> (missing (current_wx1 m) \<longrightarrow> current_wx1_symbol m = 0)
       \<and> (missing (current_wx2 m) \<longrightarrow> current_wx2_symbol m = 0)
       \<and> (missing (current_wx3 m) \<longrightarrow> current_wx3_symbol m = 0)
       \<and> (\<forall>s. current_wx1 m = VStr s \<and> wx_code_map s = None \<longrightarrow> current_wx1_symbol m = 0)
       \<and> (\<forall>s. current_wx2 m = VStr s \<and> wx_code_map s = None \<longrightarrow> current_wx2_symbol m = 0)
       \<and> (\<forall>s. current_wx3 m = VStr s \<and> wx_code_map s = None \<longrightarrow> current_wx3_symbol m = 0)"
proof -
  obtain t where "decode station_metadata wx_code_map t year month = Inr m"
    using parse_metar_InrD[OF assms(1)] by blast
  then have "decode_curwx wx_code_map t = Inr ((current_wx1 m, current_wx2 m, current_wx3 m),
           (current_wx1_symbol m, current_wx2_symbol m, current_wx3_symbol m))"
    by (rule decode_InrD(4))
  from decode_curwx_symbols[OF this] show ?thesis
    using assms(2) by (auto simp: missing_def split: val.splits option.splits)
qed

theorem wx_symbols_witness:
  "parse_metar sample_parse sample_wx_code_map sample_report 2019 2 sample_stations
     = Inr sample_metar
   \<and> current_wx1_symbol sample_metar = 61 \<and> missing (current_wx3 sample_metar)
   \<and> current_wx3_symbol sample_metar = 0"
proof -
  have h: "\<forall>k c. sample_wx_code_map k = Some c \<longrightarrow> 0 \<le> c"
    by (simp add: sample_wx_code_map_def)
  have w: "missing (current_wx3 sample_metar)" "current_wx1_symbol sample_metar = 61"
    by (simp_all add: sample_metar_def missing_def)
  show ?thesis
    using wx_symbols[OF sample_parse_metar h] sample_parse_metar w by simp
qed

section \<open>Field-level errors\<close>

text \<open>The blocks with a \<open>try\<close> catch every exception their body can raise, so they
  always return.\<close>

lemma decode_station_total: "\<exists>r. decode_station st t = Inr r"
  by (simp add: decode_station_def catch_def split: option.splits)

lemma py_datetime_error:
  "py_datetime y mo d h mi = Inl e \<Longrightarrow>
     e = ValueError \<or> (e = OverflowError \<and> \<not> (c_int y \<and> c_int mo \<and> c_int d \<and> c_int h \<and> c_int mi))"
  by (simp add: py_datetime_def split: if_splits)

text \<open>The day, the hour and the minute are read from at most three characters, so
  they fit a C integer: \<open>datetime\<close> can only raise \<open>OverflowError\<close> for the year or the
  month that the caller passes.\<close>

lemma digitpart_length:
  "digitpart u = Some ds \<Longrightarrow> length ds \<le> length u"
  by (induction u arbitrary: ds rule: digitpart.induct) (auto split: if_splits)

lemma digitpart_all_digits:
  "digitpart u = Some ds \<Longrightarrow> c \<in> set ds \<Longrightarrow> is_digit c"
  by (induction u arbitrary: ds rule: digitpart.induct) (auto split: if_splits)

lemma unsigned_int_bound:
  assumes "unsigned_int u = Inr n"
  shows "0 \<le> n \<and> n < 10 ^ length u"
proof -
  obtain ds where ds: "digitpart u = Some ds" "n = int (dec ds)"
    using assms by (auto simp: unsigned_int_def split: option.splits if_splits)
  have "\<forall>c\<in>set ds. is_digit c"
    using digitpart_all_digits[OF ds(1)] by blast
  then have "dec ds < 10 ^ length u"
    using digitpart_length[OF ds(1)] by (rule dec_less_bound)
  then have "int (dec ds) < int (10 ^ length u)"
    by (simp only: of_nat_less_iff)
  then show ?thesis
    using ds(2) by simp
qed

lemma num_strip_length: "length (num_strip s) \<le> length s"
proof -
  have "length (num_strip s) \<le> length (dropWhile py_numspace s)"
    unfolding num_strip_def using length_dropWhile_le[of py_numspace "rev (dropWhile py_numspace s)"]
    by simp
  then show ?thesis
    using length_dropWhile_le[of py_numspace s] by linarith
qed

lemma py_int_bound:
  assumes "py_int s = Inr n" "length s \<le> k"
  shows "\<bar>n\<bar> < 10 ^ k"
proof -
  have "\<exists>u m. unsigned_int u = Inr m \<and> \<bar>n\<bar> = m \<and> length u \<le> length (num_strip s)"
  proof (cases "num_strip s")
    case Nil
    then show ?thesis using assms(1) by (simp add: py_int_def)
  next
    case (Cons c cs)
    show ?thesis
    proof (cases "c = CHR ''-''")
      case True
      then obtain m where m: "unsigned_int cs = Inr m" "n = - m"
        using assms(1) Cons by (cases "unsigned_int cs") (auto simp: py_int_def)
      then have "\<bar>n\<bar> = m" using unsigned_int_bound[OF m(1)] by simp
      then show ?thesis using m(1) Cons by auto
    next
      case nm: False
      show ?thesis
      proof (cases "c = CHR ''+''")
        case True
        then have m: "unsigned_int cs = Inr n"
          using assms(1) Cons by (simp add: py_int_def)
        then have "\<bar>n\<bar> = n" using unsigned_int_bound[OF m] by simp
        then show ?thesis using m Cons by auto
      next
        case False
        then have m: "unsigned_int (c # cs) = Inr n"
          using assms(1) Cons nm by (simp add: py_int_def)
        then have "\<bar>n\<bar> = n" using unsigned_int_bound[OF m] by simp
        then show ?thesis using m Cons by auto
      qed
    qed
  qed
  then obtain u m where u: "unsigned_int u = Inr m" "\<bar>n\<bar> = m"
      "length u \<le> length (num_strip s)"
    by blast
  have "length u \<le> k"
    using u(3) num_strip_length[of s] assms(2) by linarith
  then have "(10::int) ^ length u \<le> 10 ^ k"
    by (intro power_increasing) simp_all
  then show ?thesis
    using unsigned_int_bound[OF u(1)] u(2) by linarith
qed

lemma py_int_slice_c_int:
  assumes "py_int (slice a b s) = Inr n" "b - a \<le> 3"
  shows "c_int n"
proof -
  have "length (slice a b s) \<le> 3"
    using assms(2) by (simp add: slice_def)
  then have "\<bar>n\<bar> < 10 ^ 3"
    using assms(1) by (intro py_int_bound[where s = "slice a b s"])
  then have "- 1000 < n" "n < 1000"
    by simp_all
  then show ?thesis
    unfolding c_int_def by simp
qed

lemma decode_date_time_error:
  assumes "decode_date_time t y mo = Inl e"
  shows "e = OverflowError \<and> \<not> (c_int y \<and> c_int mo)"
proof -
  let ?s = "strip (drop_last 1 (datetime t))"
  let ?body = "ebind (py_int (slice 0 2 ?s)) (\<lambda>day.
        ebind (py_int (slice 2 4 ?s)) (\<lambda>hour.
        ebind (py_int (slice 4 7 ?s)) (\<lambda>minute.
        py_datetime y mo day hour minute)))"
  have c: "catch [AttributeError, ValueError] nan ?body = Inl e"
    using assms by (simp add: decode_date_time_def Let_def)
  then have b: "?body = Inl e" "e \<noteq> ValueError"
    by (auto simp: catch_def split: sum.splits if_splits)
  have "\<exists>d h mi. py_int (slice 0 2 ?s) = Inr d \<and> py_int (slice 2 4 ?s) = Inr h
          \<and> py_int (slice 4 7 ?s) = Inr mi \<and> py_datetime y mo d h mi = Inl e"
    using b by (auto simp: ebind_def dest: py_int_error split: sum.splits)
  then obtain d h mi where p: "py_int (slice 0 2 ?s) = Inr d" "py_int (slice 2 4 ?s) = Inr h"
      "py_int (slice 4 7 ?s) = Inr mi" "py_datetime y mo d h mi = Inl e"
    by blast
  have "c_int d" "c_int h" "c_int mi"
    using p(1-3) by (auto intro: py_int_slice_c_int)
  then show ?thesis
    using py_datetime_error[OF p(4)] b(2) by simp
qed

lemma decode_date_time_total:
  assumes "c_int y" "c_int mo"
  shows "\<exists>r. decode_date_time t y mo = Inr r"
proof (cases "decode_date_time t y mo")
  case (Inl e)
  then show ?thesis using decode_date_time_error[OF Inl] assms by simp
next
  case (Inr r)
  then show ?thesis by simp
qed

lemma decode_wind_total: "\<exists>r. decode_wind t = Inr r"
  by (simp add: decode_wind_cases)

lemma decode_curwx_total: "\<exists>r. decode_curwx m t = Inr r"
proof (cases "curwx t = '''' \<or> strip (curwx t) = ''//''")
  case True
  then show ?thesis by (auto simp: decode_curwx_def)
next
  case False
  define wx where "wx = map VStr (py_split (strip (curwx t)))
                        @ drop (length (py_split (strip (curwx t)))) [nan, nan, nan]"
  have len: "0 < length wx" "1 < length wx" "2 < length wx"
    using wx_len[of "py_split (strip (curwx t))"] by (simp_all add: wx_def)
  have "decode_curwx m t =
      ebind (py_index wx 0) (\<lambda>current_wx1.
      ebind (py_index wx 1) (\<lambda>current_wx2.
      ebind (py_index wx 2) (\<lambda>current_wx3.
      ebind (wx_symbol m wx 0) (\<lambda>current_wx1_symbol.
      ebind (wx_symbol m wx 1) (\<lambda>current_wx2_symbol.
      ebind (wx_symbol m wx 2) (\<lambda>current_wx3_symbol.
      Inr ((current_wx1, current_wx2, current_wx3),
           (current_wx1_symbol, current_wx2_symbol, current_wx3_symbol))))))))"
    using False by (simp add: decode_curwx_def wx_def Let_def)
  then show ?thesis
    using len by (simp add: wx_symbol_eq py_index_def ebind_def)
qed

lemma decode_temp_dewp_total: "\<exists>r. decode_temp_dewp t = Inr r"
  by (simp add: decode_temp_dewp_def decode_temp_spec ebind_def)

lemma layer_type_total:
  assumes "IndexError \<in> set es"
  shows "\<exists>r. layer_type es toks i = Inr r"
  using assms by (simp add: layer_type_def catch_def ebind_def py_index_def Let_def)

lemma layer_level_total: "\<exists>r. layer_level toks i = Inr r"
proof (cases "i < length toks")
  case False
  then show ?thesis
    by (simp add: layer_level_def catch_def ebind_def py_index_def)
next
  case True
  show ?thesis
  proof (cases "py_float (drop 3 (toks ! i))")
    case (Inl e)
    then have "e = ValueError" by (rule py_float_error)
    then show ?thesis
      using True Inl by (simp add: layer_level_def catch_def ebind_def py_index_def Let_def)
  next
    case (Inr f)
    then show ?thesis
      using True by (simp add: layer_level_def catch_def ebind_def py_index_def Let_def)
  qed
qed

lemma decode_skyc_layers_total:
  assumes "slice 1 3 (skyc t) \<noteq> ''VV''"
  shows "\<exists>r. decode_skyc t = Inr r"
proof -
  let ?toks = "py_split (strip (skyc t))"
  obtain a1 where a1: "layer_type [IndexError, ValueError, TypeError] ?toks 0 = Inr a1"
    using layer_type_total[of "[IndexError, ValueError, TypeError]"] by auto
  obtain a2 where a2: "layer_type [IndexError, ValueError, TypeError] ?toks 1 = Inr a2"
    using layer_type_total[of "[IndexError, ValueError, TypeError]"] by auto
  obtain a3 where a3: "layer_type [IndexError, ValueError] ?toks 2 = Inr a3"
    using layer_type_total[of "[IndexError, ValueError]"] by auto
  obtain a4 where a4: "layer_type [IndexError, ValueError, TypeError] ?toks 3 = Inr a4"
    using layer_type_total[of "[IndexError, ValueError, TypeError]"] by auto
  obtain b1 where b1: "layer_level ?toks 0 = Inr b1" using layer_level_total by blast
  obtain b2 where b2: "layer_level ?toks 1 = Inr b2" using layer_level_total by blast
  obtain b3 where b3: "layer_level ?toks 2 = Inr b3" using layer_level_total by blast
  obtain b4 where b4: "layer_level ?toks 3 = Inr b4" using layer_level_total by blast
  show ?thesis
    unfolding decode_skyc_def Let_def
    by (simp only: assms if_False a1 a2 a3 a4 b1 b2 b3 b4 ebind_def sum.case) simp
qed

text \<open>An exception that leaves the decoder comes from the visibility block, the
  vertical-visibility level or the altimeter block, or is the \<open>OverflowError\<close> of
  \<open>datetime\<close> for a year or a month outside the range of a C integer.\<close>

lemma decode_error_sources:
  assumes "decode st wx t y mo = Inl e"
  shows "decode_visibility t = Inl e
       \<or> (slice 1 3 (skyc t) = ''VV'' \<and> decode_skyc t = Inl e)
       \<or> decode_altim t = Inl e
       \<or> (e = OverflowError \<and> \<not> (c_int y \<and> c_int mo) \<and> decode_date_time t y mo = Inl e)"
proof (cases "decode_date_time t y mo")
  case (Inl e')
  obtain r1 where r1: "decode_station st t = Inr r1" using decode_station_total by blast
  have "e = e'"
    using assms unfolding decode_def r1 Inl ebind_def by (simp split: prod.splits)
  then show ?thesis
    using decode_date_time_error[OF Inl] Inl by simp
next
  case r2: (Inr r2)
  obtain r1 where r1: "decode_station st t = Inr r1" using decode_station_total by blast
  obtain r3 where r3: "decode_wind t = Inr r3" using decode_wind_total by blast
  obtain r5 where r5: "decode_curwx wx t = Inr r5" using decode_curwx_total by blast
  obtain r7 where r7: "decode_temp_dewp t = Inr r7" using decode_temp_dewp_total by blast
  have sk: "slice 1 3 (skyc t) \<noteq> ''VV'' \<Longrightarrow> \<exists>r. decode_skyc t = Inr r"
    by (rule decode_skyc_layers_total)
  show ?thesis
    using assms sk unfolding decode_def r1 r2 r3 r5 r7 ebind_def
    by (auto split: sum.splits prod.splits)
qed

text \<open>
  Claim C1 says that every numeric or format error raised while decoding a field is
  absorbed, the field set to missing, and the other fields still decoded. The blocks for
  the station, the date, the wind, the weather symbols, the cloud layers and the
  temperatures have a \<open>try\<close> (the one of the date does not list the
  \<open>OverflowError\<close> of \<open>datetime\<close>); the visibility block (lines 195--220), the
  vertical-visibility level (line 255) and the altimeter (lines 361--364) have none. On
  the report with the visibility group \<open>1/0SM\<close> the division by zero leaves
  \<open>parse_metar\<close>, although the wind group of the same report decodes to 280 and 15.
\<close>

theorem visibility_error_propagates:
  "zero_denominator_parse zero_denominator_report = Some zero_denominator_tree
   \<and> vis zero_denominator_tree = '' 1/0SM''
   \<and> decode_visibility zero_denominator_tree = Inl ZeroDivisionError
   \<and> decode_wind zero_denominator_tree = Inr (VInt 280, VInt 15)
   \<and> parse_metar zero_denominator_parse sample_wx_code_map zero_denominator_report 2019 2
        sample_stations = Inl ZeroDivisionError"
proof -
  have p: "zero_denominator_parse zero_denominator_report = Some zero_denominator_tree"
    by (simp add: zero_denominator_parse_def)
  have v: "decode_visibility zero_denominator_tree = Inl ZeroDivisionError"
    by (simp add: zero_denominator_tree_def sample_tree_def decode_defs py_defs)
  have w: "decode_wind zero_denominator_tree = Inr (VInt 280, VInt 15)"
    by (simp add: zero_denominator_tree_def sample_tree_def decode_defs py_defs)
  have s: "decode_station sample_stations zero_denominator_tree
      = Inr (VFloat (Fl (797 / 20)), VFloat (Fl (- 2093 / 20)), VFloat (Fl 1640))"
    by (simp add: zero_denominator_tree_def sample_tree_def sample_stations_def decode_defs py_defs)
  have d: "decode_date_time zero_denominator_tree 2019 2 = Inr (VDateTime 2019 2 12 18 53)"
    by (simp add: zero_denominator_tree_def sample_tree_def decode_defs py_defs)
  have "decode sample_stations sample_wx_code_map zero_denominator_tree 2019 2
      = Inl ZeroDivisionError"
    by (simp add: decode_def s d w v ebind_def)
  then show ?thesis
    using p v w by (simp add: parse_metar_def zero_denominator_tree_def)
qed

end
